theory Spec2Isabelle
  imports Main "HOL-Library.Char_ord" "HOL-Library.List_Lexorder"
begin

section \<open>The course scraper \<^verbatim>\<open>webscrapp.py\<close>: data model\<close>

text \<open>
  Python strings are modelled as \<^typ>\<open>string\<close>, the UTF-8 bytes of the text; a character
  outside ASCII is several \<^typ>\<open>char\<close>s. Comparing two such strings byte by byte orders
  them as Python orders them code point by code point.

  The dataclass \<^verbatim>\<open>Course\<close>: three string fields and eleven optional ones, \<^verbatim>\<open>None\<close>
  by default.
\<close>

record Course =
  course_id :: string
  course_title :: string
  url :: string
  is_paid :: "bool option"
  price :: "string option"
  num_subscribers :: "int option"
  num_reviews :: "int option"
  num_lectures :: "int option"
  level :: "string option"
  content_duration :: "string option"
  published_timestamp :: "string option"
  subject :: "string option"
  provider :: "string option"
  language :: "string option"

text \<open>
  \<^verbatim>\<open>Course(course_id=i, course_title=t, url=u, provider=p)\<close>, as every adapter builds
  its records: the other fields keep their default.
\<close>

definition mk_course :: "string \<Rightarrow> string \<Rightarrow> string \<Rightarrow> string \<Rightarrow> Course" where
  "mk_course i t u p =
     \<lparr>course_id = i, course_title = t, url = u, is_paid = None, price = None,
      num_subscribers = None, num_reviews = None, num_lectures = None, level = None,
      content_duration = None, published_timestamp = None, subject = None,
      provider = Some p, language = None\<rparr>"

subsection \<open>Exceptions\<close>

text \<open>
  The instances of Python's \<^verbatim>\<open>Exception\<close> the program meets: \<^verbatim>\<open>requests.RequestException\<close>
  (a failure of the network), the program's own \<^verbatim>\<open>ScrapeError\<close>, the error the retry
  decorator raises once it gives up (it wraps the failure of the last attempt; this is the
  error the specification calls FetchError), the \<^verbatim>\<open>FileNotFoundError\<close> and
  \<^verbatim>\<open>IsADirectoryError\<close> of the file system, and any other exception, none of which the
  program tells apart. Each carries its message, except the retry error. Interrupts of the
  process (\<^verbatim>\<open>KeyboardInterrupt\<close>, \<^verbatim>\<open>SystemExit\<close> raised inside an adapter), which
  are not instances of \<^verbatim>\<open>Exception\<close>, are outside the model.
\<close>

datatype pyexc =
    RequestException string
  | ScrapeError string
  | RetryError pyexc
  | FileNotFoundError string
  | IsADirectoryError string
  | OtherException string

fun class_name :: "pyexc \<Rightarrow> string" where
  "class_name (RequestException m) = ''RequestException''"
| "class_name (ScrapeError m) = ''ScrapeError''"
| "class_name (RetryError e) = ''RetryError''"
| "class_name (FileNotFoundError m) = ''FileNotFoundError''"
| "class_name (IsADirectoryError m) = ''IsADirectoryError''"
| "class_name (OtherException m) = ''Exception''"

text \<open>
  \<^verbatim>\<open>str(e)\<close>: the message. The retry error prints the future of the last attempt, whose
  text holds a memory address; the address is left out here.
\<close>

fun str_exc :: "pyexc \<Rightarrow> string" where
  "str_exc (RequestException m) = m"
| "str_exc (ScrapeError m) = m"
| "str_exc (RetryError e) =
     ''RetryError[<Future state=finished raised '' @ class_name e @ ''>]''"
| "str_exc (FileNotFoundError m) = m"
| "str_exc (IsADirectoryError m) = m"
| "str_exc (OtherException m) = m"

subsection \<open>Strings\<close>

definition digit_char :: "nat \<Rightarrow> char" where
  "digit_char d = char_of (48 + d)"

text \<open>\<^verbatim>\<open>str(n)\<close> for a natural number and for an integer: decimal, no leading zero.\<close>

fun str_nat :: "nat \<Rightarrow> string" where
  "str_nat n = (if n < 10 then [digit_char n] else str_nat (n div 10) @ [digit_char (n mod 10)])"

definition str_int :: "int \<Rightarrow> string" where
  "str_int i = (if i < 0 then CHR ''-'' # str_nat (nat (- i)) else str_nat (nat i))"

definition str_bool :: "bool \<Rightarrow> string" where
  "str_bool b = (if b then ''True'' else ''False'')"

text \<open>\<^verbatim>\<open>s.startswith(p)\<close> and \<^verbatim>\<open>p in s\<close> (\<^verbatim>\<open>p\<close> occurs in \<^verbatim>\<open>s\<close> as a block).\<close>

fun startswith :: "string \<Rightarrow> string \<Rightarrow> bool" where
  "startswith s [] = True"
| "startswith [] (p # ps) = False"
| "startswith (c # s) (p # ps) = (c = p \<and> startswith s ps)"

fun str_in :: "string \<Rightarrow> string \<Rightarrow> bool" where
  "str_in p [] = (p = [])"
| "str_in p (c # s) = (startswith (c # s) p \<or> str_in p s)"

text \<open>
  \<^verbatim>\<open>re.search(r"k1|k2|...", s, re.I)\<close> for the patterns the adapters use, which are
  alternatives of literal words made of lower-case ASCII letters, \<^verbatim>\<open>/\<close> and
  \<^verbatim>\<open>-\<close>: one of the words occurs in the string, letter case ignored. A letter of
  the pattern matches its upper-case form and the characters Python holds equivalent to
  it: beside the ASCII capitals these are U+0130 and U+0131 for \<^verbatim>\<open>i\<close>, U+017F for
  \<^verbatim>\<open>s\<close> and U+212A for \<^verbatim>\<open>k\<close>, met here as their UTF-8 bytes. Folding
  replaces each of them by the letter it matches.
\<close>

definition lower_char :: "char \<Rightarrow> char" where
  "lower_char c =
     (if CHR ''A'' \<le> c \<and> c \<le> CHR ''Z'' then char_of (of_char c + (32 :: nat)) else c)"

function fold_case :: "string \<Rightarrow> string" where
  "fold_case [] = []"
| "fold_case (c # s) =
     (if startswith (c # s) [CHR 0xC4, CHR 0xB0] \<or> startswith (c # s) [CHR 0xC4, CHR 0xB1]
        then CHR ''i'' # fold_case (drop 1 s)
      else if startswith (c # s) [CHR 0xC5, CHR 0xBF] then CHR ''s'' # fold_case (drop 1 s)
      else if startswith (c # s) [CHR 0xE2, CHR 0x84, CHR 0xAA] then CHR ''k'' # fold_case (drop 2 s)
      else lower_char c # fold_case s)"
  by pat_completeness auto
termination
  by (relation "measure length") auto

definition re_search_i :: "string list \<Rightarrow> string \<Rightarrow> bool" where
  "re_search_i words s = list_ex (\<lambda>k. str_in k (fold_case s)) words"

section \<open>The fetch primitive\<close>

subsection \<open>Pages and the network\<close>

text \<open>
  The HTML parser is a collaborator outside the program: a page is given by what the
  adapters ask of its parsed form. An anchor has its \<^verbatim>\<open>href\<close> attribute, if any, its
  text as \<^verbatim>\<open>get_text(strip=True)\<close> returns it, and whether it matches the class
  selectors of the Moodle adapter (it lies in a \<^verbatim>\<open>.coursebox\<close>, in a
  \<^verbatim>\<open>.course-title\<close>, it has the class \<^verbatim>\<open>coursename\<close>). A page has its anchors in
  document order, the stripped text of its first \<^verbatim>\<open>h1\<close>, \<^verbatim>\<open>h2\<close> or \<^verbatim>\<open>title\<close>
  element, and that of the first element matching
  \<^verbatim>\<open>h1, h2.page-title, .course-title\<close>, if there is one.
\<close>

record anchor =
  href :: "string option"
  anchor_text :: string
  in_coursebox :: bool
  in_course_title :: bool
  has_coursename :: bool

record html =
  anchors :: "anchor list"
  first_heading :: "string option"
  title_el :: "string option"

record response =
  status_code :: nat
  body :: html

text \<open>
  What a request meets: a response, or an exception of the transport. The network is any
  function from the number of requests made before and the URL to what the request meets,
  so every behaviour of a transport, also one that changes in time, is a value of the
  model. Beside the network the world holds everything else the program acts on: the URLs
  requested and the waits slept, in order, the lines printed, and the file system (the
  directories that exist, and the content of each file).
\<close>

datatype outcome = Responds response | Raises pyexc

record world =
  transport :: "nat \<Rightarrow> string \<Rightarrow> outcome"
  requested :: "string list"
  slept :: "int list"
  printed :: "string list"
  dirs :: "string set"
  files :: "string \<rightharpoonup> string"

definition session_get :: "string \<Rightarrow> world \<Rightarrow> outcome \<times> world" where
  "session_get u w = (transport w (length (requested w)) u, w\<lparr>requested := requested w @ [u]\<rparr>)"

definition sleep :: "int \<Rightarrow> world \<Rightarrow> world" where
  "sleep s w = w\<lparr>slept := slept w @ [s]\<rparr>"

text \<open>
  The body of \<^verbatim>\<open>get\<close>, one attempt: the request, then \<^verbatim>\<open>ScrapeError\<close> for a status
  of 400 or more.
\<close>

definition get_attempt :: "string \<Rightarrow> world \<Rightarrow> (pyexc + response) \<times> world" where
  "get_attempt u w =
     (case session_get u w of
        (Raises e, w1) \<Rightarrow> (Inl e, w1)
      | (Responds resp, w1) \<Rightarrow>
          if status_code resp \<ge> 400
          then (Inl (ScrapeError (''GET '' @ u @ '' -> '' @ str_nat (status_code resp))), w1)
          else (Inr resp, w1))"

subsection \<open>The retry decorator\<close>

text \<open>
  The decorator \<^verbatim>\<open>retry\<close> and its arguments \<^verbatim>\<open>stop_after_attempt\<close>,
  \<^verbatim>\<open>wait_exponential\<close> and \<^verbatim>\<open>retry_if_exception_type\<close> come from the library
  tenacity, whose code is not under \<^verbatim>\<open>src/\<close>; the source gives their arguments only,
  which the policy holds.
\<close>

record policy =
  max_attempts :: nat
  multiplier :: int
  min_wait :: int
  max_wait :: int

text \<open>
  Modelled from the spec: \<^verbatim>\<open>stop_after_attempt(n)\<close> of tenacity is missing from the
  sources; "retries up to 3 attempts total": stop once the attempt number has reached n.
\<close>

definition stop_after_attempt :: "nat \<Rightarrow> nat \<Rightarrow> bool" where
  "stop_after_attempt n attempt_number = (attempt_number \<ge> n)"

text \<open>
  Modelled from the spec: \<^verbatim>\<open>wait_exponential(multiplier, min, max)\<close> of tenacity is
  missing from the sources; "exponential backoff: wait = min(max_wait, multiplier *
  2^(attempt-1))", with the minimum as a lower bound, as the library computes it after the
  failed attempt number \<open>attempt_number\<close> (counted from 1):
  \<^verbatim>\<open>max(max(0, min), min(multiplier * 2 ** (attempt_number - 1), max))\<close>.
\<close>

definition wait_exponential :: "policy \<Rightarrow> nat \<Rightarrow> int" where
  "wait_exponential p attempt_number =
     max (max 0 (min_wait p)) (min (multiplier p * 2 ^ (attempt_number - 1)) (max_wait p))"

text \<open>\<^verbatim>\<open>retry_if_exception_type((requests.RequestException, ScrapeError))\<close>.\<close>

fun retry_if_exception_type :: "pyexc \<Rightarrow> bool" where
  "retry_if_exception_type (RequestException m) = True"
| "retry_if_exception_type (ScrapeError m) = True"
| "retry_if_exception_type e = False"

text \<open>
  Modelled from the spec: the loop of the decorator \<^verbatim>\<open>retry\<close> of tenacity is missing
  from the sources. From attempt number \<open>n\<close>: run the body; return its result; re-raise
  an exception that is not to be retried; give up with the retry error when the stop
  condition holds; otherwise sleep for the wait and try again.
\<close>

function retrying :: "policy \<Rightarrow> nat \<Rightarrow> string \<Rightarrow> world \<Rightarrow> (pyexc + response) \<times> world" where
  "retrying p n u w =
     (case get_attempt u w of
        (Inr resp, w1) \<Rightarrow> (Inr resp, w1)
      | (Inl e, w1) \<Rightarrow>
          if \<not> retry_if_exception_type e then (Inl e, w1)
          else if stop_after_attempt (max_attempts p) n then (Inl (RetryError e), w1)
          else retrying p (Suc n) u (sleep (wait_exponential p n) w1))"
  by pat_completeness auto
termination
  by (relation "measure (\<lambda>(p, n, u, w). max_attempts p - n)")
     (auto simp: stop_after_attempt_def)

declare retrying.simps [simp del]

text \<open>
  \<^verbatim>\<open>@retry(stop=stop_after_attempt(3), wait=wait_exponential(multiplier=1, min=1, max=8), ...)\<close>
\<close>

definition get_policy :: policy where
  "get_policy = \<lparr>max_attempts = 3, multiplier = 1, min_wait = 1, max_wait = 8\<rparr>"

definition get :: "string \<Rightarrow> world \<Rightarrow> (pyexc + response) \<times> world" where
  "get u w = retrying get_policy 1 u w"


section \<open>Adapters\<close>

text \<open>
  An adapter instance: the class attributes \<^verbatim>\<open>key\<close>, \<^verbatim>\<open>display_name\<close> and
  \<^verbatim>\<open>base_url\<close>, the answer of \<^verbatim>\<open>is_allowed()\<close>, and \<^verbatim>\<open>iter_courses\<close>. The
  callers consume the whole of what \<^verbatim>\<open>iter_courses\<close> yields with \<^verbatim>\<open>list(...)\<close>, so
  the method is modelled by the list it yields, or by the exception that ends it, and the
  world it leaves.
\<close>

record adapter =
  key :: string
  display_name :: string
  base_url :: string
  is_allowed :: bool
  iter_courses :: "world \<Rightarrow> (pyexc + Course list) \<times> world"

text \<open>
  A adapter_class of \<^verbatim>\<open>BaseAdapter\<close>: \<^verbatim>\<open>is_allowed\<close> is inherited and returns
  \<^verbatim>\<open>True\<close>; the body of \<^verbatim>\<open>iter_courses\<close> reads \<^verbatim>\<open>self.display_name\<close> and
  \<^verbatim>\<open>self.base_url\<close>.
\<close>

definition adapter_class ::
  "string \<Rightarrow> string \<Rightarrow> string \<Rightarrow>
   (string \<Rightarrow> string \<Rightarrow> world \<Rightarrow> (pyexc + Course list) \<times> world) \<Rightarrow> adapter" where
  "adapter_class k name base method =
     \<lparr>key = k, display_name = name, base_url = base, is_allowed = True,
      iter_courses = method name base\<rparr>"

text \<open>\<^verbatim>\<open>BaseAdapter.soup\<close>: fetch the page and parse it.\<close>

definition soup :: "string \<Rightarrow> world \<Rightarrow> (pyexc + html) \<times> world" where
  "soup u w = (case get u w of (Inl e, w1) \<Rightarrow> (Inl e, w1) | (Inr resp, w1) \<Rightarrow> (Inr (body resp), w1))"

text \<open>
  \<^verbatim>\<open>soup.select("a[href]")\<close>; the step \<^verbatim>\<open>if href.startswith("/"): href = base_url + href\<close>;
  and \<^verbatim>\<open>a.get_text(strip=True) or href\<close>.
\<close>

definition select_a_href :: "html \<Rightarrow> anchor list" where
  "select_a_href pg = filter (\<lambda>a. href a \<noteq> None) (anchors pg)"

definition resolve :: "string \<Rightarrow> string \<Rightarrow> string" where
  "resolve base h = (if startswith h ''/'' then base @ h else h)"

definition text_or :: "string \<Rightarrow> string \<Rightarrow> string" where
  "text_or t h = (if t = [] then h else t)"

subsection \<open>Learning.gov.et\<close>

text \<open>
  The loop over \<^verbatim>\<open>sorted(links)\<close>: an empty href is skipped; a candidate whose page
  cannot be fetched is skipped; the title is the text of the first heading of the page, or
  the link when the page has none.
\<close>

fun learninggov_links :: "string \<Rightarrow> string \<Rightarrow> string list \<Rightarrow> world \<Rightarrow> Course list \<times> world" where
  "learninggov_links name base [] w = ([], w)"
| "learninggov_links name base (raw # rest) w =
     (if raw = [] then learninggov_links name base rest w
      else
        let h = resolve base raw in
        if re_search_i [''course'', ''training'', ''program'', ''module''] h then
          (case soup h w of
             (Inl e, w1) \<Rightarrow> learninggov_links name base rest w1
           | (Inr csoup, w1) \<Rightarrow>
               let title = (case first_heading csoup of Some t \<Rightarrow> t | None \<Rightarrow> h);
                   (cs, w2) = learninggov_links name base rest w1
               in (mk_course h title h name # cs, w2))
        else learninggov_links name base rest w)"

text \<open>
  \<^verbatim>\<open>links = {a.get("href") for a in soup.select("a[href]")}\<close> is a set; \<^verbatim>\<open>sorted\<close>
  lists its elements, each once, in ascending order. The fetch of the homepage is not
  guarded.
\<close>

definition learninggov_iter_courses ::
  "string \<Rightarrow> string \<Rightarrow> world \<Rightarrow> (pyexc + Course list) \<times> world" where
  "learninggov_iter_courses name base w =
     (case soup base w of
        (Inl e, w1) \<Rightarrow> (Inl e, w1)
      | (Inr pg, w1) \<Rightarrow>
          let links = List.map_filter href (select_a_href pg);
              (cs, w2) = learninggov_links name base (sort (remdups links)) w1
          in (Inr cs, w2))"

subsection \<open>LearnEthiopia.com\<close>

text \<open>
  The \<^verbatim>\<open>try\<close> block that finds the title of a course: the text of the title element
  of the course page; without such an element, or when the page cannot be fetched, the text
  of the anchor, or the link when that text is empty.
\<close>

definition learnethiopia_title :: "anchor \<Rightarrow> string \<Rightarrow> world \<Rightarrow> string \<times> world" where
  "learnethiopia_title a h w =
     (case soup h w of
        (Inl e, w1) \<Rightarrow> (text_or (anchor_text a) h, w1)
      | (Inr csoup, w1) \<Rightarrow>
          (case title_el csoup of
             Some t \<Rightarrow> (t, w1)
           | None \<Rightarrow> (text_or (anchor_text a) h, w1)))"

text \<open>
  The inner loop over the anchors of one catalogue page, with the set \<^verbatim>\<open>seen\<close>. A
  link outside the site or seen before is skipped.
\<close>

fun learnethiopia_anchors ::
  "string \<Rightarrow> string \<Rightarrow> anchor list \<Rightarrow> string set \<Rightarrow> world \<Rightarrow> Course list \<times> string set \<times> world" where
  "learnethiopia_anchors name base [] seen w = ([], seen, w)"
| "learnethiopia_anchors name base (a # rest) seen w =
     (case href a of
        None \<Rightarrow> learnethiopia_anchors name base rest seen w
      | Some raw \<Rightarrow>
          if raw = [] then learnethiopia_anchors name base rest seen w
          else
            let h = resolve base raw in
            if \<not> str_in base h \<or> h \<in> seen then learnethiopia_anchors name base rest seen w
            else if re_search_i [''/course/'', ''/courses/'', ''/program/''] h then
              let (title, w1) = learnethiopia_title a h w;
                  (cs, seen2, w2) = learnethiopia_anchors name base rest (insert h seen) w1
              in (mk_course h title h name # cs, seen2, w2)
            else learnethiopia_anchors name base rest seen w)"

text \<open>The outer loop over the catalogue URLs: one that cannot be fetched is skipped.\<close>

fun learnethiopia_catalogs ::
  "string \<Rightarrow> string \<Rightarrow> string list \<Rightarrow> string set \<Rightarrow> world \<Rightarrow> Course list \<times> string set \<times> world" where
  "learnethiopia_catalogs name base [] seen w = ([], seen, w)"
| "learnethiopia_catalogs name base (u # us) seen w =
     (case soup u w of
        (Inl e, w1) \<Rightarrow> learnethiopia_catalogs name base us seen w1
      | (Inr pg, w1) \<Rightarrow>
          let (cs, seen1, w2) = learnethiopia_anchors name base (select_a_href pg) seen w1;
              (cs', seen2, w3) = learnethiopia_catalogs name base us seen1 w2
          in (cs @ cs', seen2, w3))"

definition learnethiopia_iter_courses ::
  "string \<Rightarrow> string \<Rightarrow> world \<Rightarrow> (pyexc + Course list) \<times> world" where
  "learnethiopia_iter_courses name base w =
     (let (cs, seen, w1) = learnethiopia_catalogs name base [base, base @ ''/courses''] {} w
      in (Inr cs, w1))"

subsection \<open>The adapters that read the links of their homepage\<close>

text \<open>
  Fourteen adapters share one loop, word for word but for the pattern and for a field set
  on the record: for each anchor with an href, skip an empty href, resolve it, and yield a
  record when the link lies on the site and matches the pattern; the title is the text of
  the anchor, or the link when that text is empty. The loop makes no request.
\<close>

definition link_courses ::
  "string \<Rightarrow> string \<Rightarrow> string list \<Rightarrow> (Course \<Rightarrow> Course) \<Rightarrow> html \<Rightarrow> Course list" where
  "link_courses name base words extra pg =
     List.map_filter
       (\<lambda>a. case href a of
               None \<Rightarrow> None
             | Some raw \<Rightarrow>
                 if raw = [] then None
                 else
                   let h = resolve base raw in
                   if str_in base h \<and> re_search_i words h
                   then Some (extra (mk_course h (text_or (anchor_text a) h) h name))
                   else None)
       (select_a_href pg)"

text \<open>
  \<^verbatim>\<open>soup = self.soup(self.base_url)\<close> followed by the loop (EduHub, ALX, Kubaya, Stafford):
  an exception of the fetch leaves the method.
\<close>

definition homepage_links ::
  "string list \<Rightarrow> (Course \<Rightarrow> Course) \<Rightarrow> string \<Rightarrow> string \<Rightarrow> world \<Rightarrow> (pyexc + Course list) \<times> world" where
  "homepage_links words extra name base w =
     (case soup base w of
        (Inl e, w1) \<Rightarrow> (Inl e, w1)
      | (Inr pg, w1) \<Rightarrow> (Inr (link_courses name base words extra pg), w1))"

text \<open>
  \<^verbatim>\<open>try: soup = self.soup(self.base_url)\<close> \<^verbatim>\<open>except Exception: return []\<close> followed by the
  loop (SmartEthio, Afriwork, AAU, AAU-eLearnAfrica, St. Mary's, ILI, Infonet, Microlink,
  Ennlite, GxCamp): an exception of the fetch ends the method with nothing yielded.
\<close>

definition try_homepage_links ::
  "string list \<Rightarrow> (Course \<Rightarrow> Course) \<Rightarrow> string \<Rightarrow> string \<Rightarrow> world \<Rightarrow> (pyexc + Course list) \<times> world" where
  "try_homepage_links words extra name base w =
     (case soup base w of
        (Inl e, w1) \<Rightarrow> (Inr [], w1)
      | (Inr pg, w1) \<Rightarrow> (Inr (link_courses name base words extra pg), w1))"

subsection \<open>eLearn Ethiopia\<close>

text \<open>
  The boxes selected by \<^verbatim>\<open>.coursebox a[href], .course-title a[href], a.coursename\<close>, in
  document order; one without an href, or with an empty one, is skipped. There is no
  pattern and no test of the site.
\<close>

definition select_courseboxes :: "html \<Rightarrow> anchor list" where
  "select_courseboxes pg =
     filter (\<lambda>a. (href a \<noteq> None \<and> (in_coursebox a \<or> in_course_title a)) \<or> has_coursename a)
       (anchors pg)"

definition coursebox_courses :: "string \<Rightarrow> string \<Rightarrow> html \<Rightarrow> Course list" where
  "coursebox_courses name base pg =
     List.map_filter
       (\<lambda>box. case href box of
                 None \<Rightarrow> None
               | Some raw \<Rightarrow>
                   if raw = [] then None
                   else
                     let h = resolve base raw
                     in Some (mk_course h (text_or (anchor_text box) h) h name))
       (select_courseboxes pg)"

fun elearneth_indexes :: "string \<Rightarrow> string \<Rightarrow> string list \<Rightarrow> world \<Rightarrow> Course list \<times> world" where
  "elearneth_indexes name base [] w = ([], w)"
| "elearneth_indexes name base (u # us) w =
     (case soup u w of
        (Inl e, w1) \<Rightarrow> elearneth_indexes name base us w1
      | (Inr pg, w1) \<Rightarrow>
          let (cs', w2) = elearneth_indexes name base us w1
          in (coursebox_courses name base pg @ cs', w2))"

definition elearneth_iter_courses ::
  "string \<Rightarrow> string \<Rightarrow> world \<Rightarrow> (pyexc + Course list) \<times> world" where
  "elearneth_iter_courses name base w =
     (let (cs, w1) = elearneth_indexes name base [base @ ''/course/index.php'', base] w
      in (Inr cs, w1))"

text \<open>\<^verbatim>\<open>return []\<close>: the adapters left as stubs make no request.\<close>

definition no_courses :: "string \<Rightarrow> string \<Rightarrow> world \<Rightarrow> (pyexc + Course list) \<times> world" where
  "no_courses name base w = (Inr [], w)"

subsection \<open>The adapter classes\<close>

text \<open>
  One instance per class decorated with \<^verbatim>\<open>@register\<close>, in the order of the source. A
  display name outside ASCII is written as its UTF-8 bytes.
\<close>

definition LearningGovAdapter :: adapter where
  "LearningGovAdapter =
     adapter_class ''learninggov'' ''Learning.gov.et''
       ''https://learning.gov.et''
       learninggov_iter_courses"

definition LearnEthiopiaAdapter :: adapter where
  "LearnEthiopiaAdapter =
     adapter_class ''learnethiopia'' ''LearnEthiopia.com''
       ''https://learnethiopia.com''
       learnethiopia_iter_courses"

definition EduHubAdapter :: adapter where
  "EduHubAdapter =
     adapter_class ''eduhubplc'' ''EDUHUB Technology Solutions''
       ''https://eduhubplc.com''
       (homepage_links
       [''course'', ''training'', ''solution'', ''product''] id)"

definition ALXAdapter :: adapter where
  "ALXAdapter =
     adapter_class ''alx'' ''ALX Africa''
       ''https://www.alxafrica.com''
       (homepage_links
       [''program'', ''course'', ''software'', ''data'', ''cloud'', ''ai''] id)"

definition SmartEthioAdapter :: adapter where
  "SmartEthioAdapter =
     adapter_class ''smartethio'' ''SmartEthio''
       ''https://smartethio.com''
       (try_homepage_links
       [''grade'', ''subject'', ''course'', ''lesson'', ''exam''] (\<lambda>c. c\<lparr>subject := Some ''K12''\<rparr>))"

definition AfriworkAdapter :: adapter where
  "AfriworkAdapter =
     adapter_class ''afriwork'' ''Afriwork''
       ''https://afriwork.com''
       (try_homepage_links
       [''learn'', ''academy'', ''blog'', ''training'', ''skills''] id)"

definition KubayaAdapter :: adapter where
  "KubayaAdapter =
     adapter_class ''kubaya'' ''Kubaya Learning''
       ''https://kubayalearning.com''
       (homepage_links
       [''course'', ''lesson'', ''learn'', ''levels'', ''amharic''] (\<lambda>c. c\<lparr>language := Some ''Amharic''\<rparr>))"

definition StaffordAdapter :: adapter where
  "StaffordAdapter =
     adapter_class ''staffordglobal'' ''Stafford Global''
       ''https://www.staffordglobal.org''
       (homepage_links
       [''program'', ''course'', ''mba'', ''msc'', ''pgce'', ''degree''] id)"

definition ELearnETHAdapter :: adapter where
  "ELearnETHAdapter =
     adapter_class ''elearneth'' ''eLearn Ethiopia''
       ''https://elearnethiopia.example''
       elearneth_iter_courses"

definition AAUAdapter :: adapter where
  "AAUAdapter =
     adapter_class ''aau'' ''AAU e-Learning''
       ''https://elearning.aau.edu.et''
       (try_homepage_links
       [''course'', ''program'', ''catalog'', ''category''] id)"

definition AAUElearnAfricaAdapter :: adapter where
  "AAUElearnAfricaAdapter =
     adapter_class ''aau_elearnafrica'' (''AAU'' @ [CHR 0xE2, CHR 0x80, CHR 0x91] @ ''eLearnAfrica LMS'')
       ''https://elearnafrica.example''
       (try_homepage_links
       [''course'', ''program'', ''catalog'', ''category''] id)"

definition StMarysAdapter :: adapter where
  "StMarysAdapter =
     adapter_class ''stmarys'' (''St. Mary'' @ [CHR 0xE2, CHR 0x80, CHR 0x99] @ ''s University Distance Education'')
       ''https://smuc.edu.et''
       (try_homepage_links
       [''distance'', ''program'', ''course'', ''degree''] id)"

definition ILIAdapter :: adapter where
  "ILIAdapter =
     adapter_class ''ili'' ''International Leadership Institute''
       ''https://ili.edu.et''
       (try_homepage_links
       [''program'', ''course'', ''diploma'', ''degree'', ''certificate''] id)"

definition InfonetAdapter :: adapter where
  "InfonetAdapter =
     adapter_class ''infonet'' ''Infonet College''
       ''https://infonetcollege.example''
       (try_homepage_links
       [''short-course'', ''training'', ''program'', ''course''] id)"

definition MicrolinkAdapter :: adapter where
  "MicrolinkAdapter =
     adapter_class ''microlink'' ''Microlink IT College''
       ''https://microlinkcolleges.net''
       (try_homepage_links
       [''cisco'', ''ict'', ''program'', ''course'', ''training''] id)"

definition EnnliteAdapter :: adapter where
  "EnnliteAdapter =
     adapter_class ''ennlite'' ''Ennlite Academy''
       ''https://ennlite.example''
       (try_homepage_links
       [''course'', ''training'', ''graphic'', ''marketing'', ''web'', ''app''] id)"

definition GxCampAdapter :: adapter where
  "GxCampAdapter =
     adapter_class ''gxcamp'' ''GxCamp''
       ''https://gxcamp.example''
       (try_homepage_links
       [''course'', ''ict'', ''english'', ''web'', ''amharic''] id)"

definition LearnUpAdapter :: adapter where
  "LearnUpAdapter =
     adapter_class ''learnup'' ''LearnUp Ethiopia''
       ''https://learnup.example''
       no_courses"

definition FiveMillionCodersAdapter :: adapter where
  "FiveMillionCodersAdapter =
     adapter_class ''5mec'' ''5 Million Ethiopian Coders''
       ''https://5millioncoders.example''
       no_courses"

definition HagerlyAdapter :: adapter where
  "HagerlyAdapter =
     adapter_class ''hagerly'' ''Hagerly''
       ''https://hagerly.example''
       no_courses"

definition HaletaAdapter :: adapter where
  "HaletaAdapter =
     adapter_class ''haleta'' ''Haleta App''
       ''https://haleta.example''
       no_courses"

definition ZemenTechAdapter :: adapter where
  "ZemenTechAdapter =
     adapter_class ''zementechnologies'' ''Zemen Technologies''
       ''https://zemen-technology.example''
       no_courses"

section \<open>The registry\<close>

text \<open>
  \<^verbatim>\<open>ADAPTERS\<close> is a dictionary: its entries are kept in the order in which their keys
  were first set, and setting a key again replaces the value in place.
\<close>

fun dict_set :: "string \<Rightarrow> 'v \<Rightarrow> (string \<times> 'v) list \<Rightarrow> (string \<times> 'v) list" where
  "dict_set k v [] = [(k, v)]"
| "dict_set k v ((k', v') # rest) =
     (if k' = k then (k, v) # rest else (k', v') # dict_set k v rest)"

fun dict_get :: "(string \<times> 'v) list \<Rightarrow> string \<Rightarrow> 'v option" where
  "dict_get [] k = None"
| "dict_get ((k', v') # rest) k = (if k' = k then Some v' else dict_get rest k)"

definition register :: "adapter \<Rightarrow> (string \<times> adapter) list \<Rightarrow> (string \<times> adapter) list" where
  "register inst reg = dict_set (key inst) inst reg"

definition ADAPTERS :: "(string \<times> adapter) list" where
  "ADAPTERS =
     foldl (\<lambda>reg inst. register inst reg) []
       [LearningGovAdapter,
        LearnEthiopiaAdapter,
        EduHubAdapter,
        ALXAdapter,
        SmartEthioAdapter,
        AfriworkAdapter,
        KubayaAdapter,
        StaffordAdapter,
        ELearnETHAdapter,
        AAUAdapter,
        AAUElearnAfricaAdapter,
        StMarysAdapter,
        ILIAdapter,
        InfonetAdapter,
        MicrolinkAdapter,
        EnnliteAdapter,
        GxCampAdapter,
        LearnUpAdapter,
        FiveMillionCodersAdapter,
        HagerlyAdapter,
        HaletaAdapter,
        ZemenTechAdapter]"

section \<open>The sink\<close>

subsection \<open>The CSV writer\<close>

text \<open>The values an attribute of a \<^verbatim>\<open>Course\<close> can hold.\<close>

datatype pyval = PNone | PStr string | PBool bool | PInt int

definition FIELDS :: "string list" where
  "FIELDS =
     [''course_id'', ''course_title'', ''url'', ''is_paid'', ''price'', ''num_subscribers'',
      ''num_reviews'', ''num_lectures'', ''level'', ''content_duration'',
      ''published_timestamp'', ''subject'', ''provider'', ''language'']"

definition opt :: "('a \<Rightarrow> pyval) \<Rightarrow> 'a option \<Rightarrow> pyval" where
  "opt f x = (case x of None \<Rightarrow> PNone | Some v \<Rightarrow> f v)"

text \<open>\<^verbatim>\<open>getattr(c, k)\<close>; a name that is no attribute raises \<^verbatim>\<open>AttributeError\<close>.\<close>

definition getattr :: "Course \<Rightarrow> string \<Rightarrow> pyval option" where
  "getattr c k =
     (if k = ''course_id'' then Some (PStr (course_id c))
      else if k = ''course_title'' then Some (PStr (course_title c))
      else if k = ''url'' then Some (PStr (url c))
      else if k = ''is_paid'' then Some (opt PBool (is_paid c))
      else if k = ''price'' then Some (opt PStr (price c))
      else if k = ''num_subscribers'' then Some (opt PInt (num_subscribers c))
      else if k = ''num_reviews'' then Some (opt PInt (num_reviews c))
      else if k = ''num_lectures'' then Some (opt PInt (num_lectures c))
      else if k = ''level'' then Some (opt PStr (level c))
      else if k = ''content_duration'' then Some (opt PStr (content_duration c))
      else if k = ''published_timestamp'' then Some (opt PStr (published_timestamp c))
      else if k = ''subject'' then Some (opt PStr (subject c))
      else if k = ''provider'' then Some (opt PStr (provider c))
      else if k = ''language'' then Some (opt PStr (language c))
      else None)"

text \<open>
  \<^verbatim>\<open>{k: getattr(c, k) for k in FIELDS}\<close>, the dictionary handed to the writer, as the
  list of its items, built key after key; \<^verbatim>\<open>None\<close> when an attribute is missing.
\<close>

fun rowdict_from ::
  "Course \<Rightarrow> string list \<Rightarrow> (string \<times> pyval) list \<Rightarrow> (string \<times> pyval) list option" where
  "rowdict_from c [] d = Some d"
| "rowdict_from c (k # ks) d =
     (case getattr c k of
        None \<Rightarrow> None
      | Some v \<Rightarrow> rowdict_from c ks (dict_set k v d))"

definition rowdict :: "Course \<Rightarrow> (string \<times> pyval) list option" where
  "rowdict c = rowdict_from c FIELDS []"

text \<open>
  The module \<^verbatim>\<open>csv\<close> belongs to the standard library. \<^verbatim>\<open>DictWriter\<close> lists the
  values of the row in the order of its field names, the empty string standing for a
  missing key. The writer turns \<^verbatim>\<open>None\<close> into the empty string and any other value
  that is not a string into \<^verbatim>\<open>str(value)\<close>.
\<close>

definition dict_to_list :: "string list \<Rightarrow> (string \<times> pyval) list \<Rightarrow> pyval list" where
  "dict_to_list fieldnames d =
     map (\<lambda>k. case dict_get d k of None \<Rightarrow> PStr [] | Some v \<Rightarrow> v) fieldnames"

fun csv_str :: "pyval \<Rightarrow> string" where
  "csv_str PNone = []"
| "csv_str (PStr s) = s"
| "csv_str (PBool b) = str_bool b"
| "csv_str (PInt i) = str_int i"

text \<open>
  The dialect is \<^verbatim>\<open>excel\<close>: the delimiter is a comma, the quote character a double quote,
  the line terminator CR LF, quoting minimal with doubled quotes. A field is quoted when it
  holds the delimiter, the quote character or a character of the line terminator; a row
  made of one empty field is written as a pair of quotes.
\<close>

abbreviation DQ :: char where "DQ \<equiv> CHR 0x22"
abbreviation CR :: char where "CR \<equiv> CHR 0x0D"
abbreviation LF :: char where "LF \<equiv> CHR 0x0A"
abbreviation COMMA :: char where "COMMA \<equiv> CHR 0x2C"

definition special :: "char \<Rightarrow> bool" where
  "special c = (c = COMMA \<or> c = DQ \<or> c = CR \<or> c = LF)"

definition doubled :: "string \<Rightarrow> string" where
  "doubled s = concat (map (\<lambda>c. if c = DQ then [DQ, DQ] else [c]) s)"

definition quote_field :: "string \<Rightarrow> string" where
  "quote_field s = (if list_ex special s then DQ # doubled s @ [DQ] else s)"

fun join_fields :: "string list \<Rightarrow> string" where
  "join_fields [] = []"
| "join_fields [f] = quote_field f"
| "join_fields (f # g # fs) = quote_field f @ COMMA # join_fields (g # fs)"

definition writerow :: "string list \<Rightarrow> string" where
  "writerow fs = (if fs = [[]] then [DQ, DQ] else join_fields fs) @ [CR, LF]"

text \<open>The cells of the row of a record, and the text \<^verbatim>\<open>write_csv\<close> writes: the header
  (each field name under itself), then one row per record.\<close>

definition cells :: "Course \<Rightarrow> string list option" where
  "cells c = map_option (\<lambda>d. map csv_str (dict_to_list FIELDS d)) (rowdict c)"

fun csv_rows :: "Course list \<Rightarrow> string option" where
  "csv_rows [] = Some []"
| "csv_rows (c # cs) =
     (case cells c of
        None \<Rightarrow> None
      | Some r \<Rightarrow> (case csv_rows cs of None \<Rightarrow> None | Some t \<Rightarrow> Some (writerow r @ t)))"

definition csv_text :: "Course list \<Rightarrow> string option" where
  "csv_text rows = map_option (\<lambda>t. writerow FIELDS @ t) (csv_rows rows)"

subsection \<open>The file system\<close>

text \<open>
  \<^verbatim>\<open>os.path.dirname\<close>: the path up to its last slash, the trailing slashes of that head
  stripped unless it is made of slashes only.
\<close>

definition rstrip_slash :: "string \<Rightarrow> string" where
  "rstrip_slash s = rev (dropWhile (\<lambda>c. c = CHR ''/'') (rev s))"

definition dirname :: "string \<Rightarrow> string" where
  "dirname p =
     (let head = rev (dropWhile (\<lambda>c. c \<noteq> CHR ''/'') (rev p))
      in if head \<noteq> [] \<and> \<not> list_all (\<lambda>c. c = CHR ''/'') head then rstrip_slash head else head)"

text \<open>
  The directories \<^verbatim>\<open>os.makedirs\<close> goes through: the path cut before each of its slashes,
  then the path itself.
\<close>

fun parents :: "string \<Rightarrow> string \<Rightarrow> string list" where
  "parents acc [] = []"
| "parents acc (c # cs) =
     (if c = CHR ''/'' \<and> acc \<noteq> [] then [acc] else []) @ parents (acc @ [c]) cs"

text \<open>
  \<^verbatim>\<open>os.makedirs(name, exist_ok=True)\<close>: the empty path raises
  \<^verbatim>\<open>FileNotFoundError\<close>; any other path exists as a directory afterwards, with its
  parents. \<^verbatim>\<open>open(path, "w")\<close> and the writing of the text: a path that is empty or
  whose directory does not exist raises \<^verbatim>\<open>FileNotFoundError\<close>; a path that names a
  directory (one that exists, or a path whose last component is empty, \<^verbatim>\<open>.\<close> or
  \<^verbatim>\<open>..\<close>) raises \<^verbatim>\<open>IsADirectoryError\<close>; any other path holds the text
  afterwards. Paths are compared as they are written. Permissions, links, and a file
  standing where a directory is wanted, are outside the model.
\<close>

definition basename :: "string \<Rightarrow> string" where
  "basename p = rev (takeWhile (\<lambda>c. c \<noteq> CHR ''/'') (rev p))"

definition quoted :: "string \<Rightarrow> string" where
  "quoted p = [CHR 0x27] @ p @ [CHR 0x27]"

definition makedirs :: "string \<Rightarrow> world \<Rightarrow> pyexc + world" where
  "makedirs name w =
     (if name = [] then Inl (FileNotFoundError (''[Errno 2] No such file or directory: '' @ quoted name))
      else Inr (w\<lparr>dirs := dirs w \<union> set (parents [] name @ [name])\<rparr>))"

definition write_file :: "string \<Rightarrow> string \<Rightarrow> world \<Rightarrow> pyexc + world" where
  "write_file path content w =
     (if path = [] then Inl (FileNotFoundError (''[Errno 2] No such file or directory: '' @ quoted path))
      else if path \<in> dirs w \<or> basename path \<in> {[], ''.'', ''..''}
        then Inl (IsADirectoryError (''[Errno 21] Is a directory: '' @ quoted path))
      else if dirname path \<noteq> [] \<and> dirname path \<notin> dirs w
        then Inl (FileNotFoundError (''[Errno 2] No such file or directory: '' @ quoted path))
      else Inr (w\<lparr>files := (files w)(path \<mapsto> content)\<rparr>))"

subsection \<open>\<^verbatim>\<open>write_csv\<close>\<close>

text \<open>
  First \<^verbatim>\<open>os.makedirs(os.path.dirname(out_path), exist_ok=True)\<close>, then the file is
  opened and the header and the rows are written. A row with a missing attribute would
  raise after the file was opened and the header written.
\<close>

definition write_csv :: "Course list \<Rightarrow> string \<Rightarrow> world \<Rightarrow> (pyexc + unit) \<times> world" where
  "write_csv rows out_path w =
     (case makedirs (dirname out_path) w of
        Inl e \<Rightarrow> (Inl e, w)
      | Inr w1 \<Rightarrow>
          (case csv_text rows of
             None \<Rightarrow>
               (case write_file out_path (writerow FIELDS) w1 of
                  Inl e \<Rightarrow> (Inl e, w1)
                | Inr w2 \<Rightarrow> (Inl (OtherException ''AttributeError''), w2))
           | Some t \<Rightarrow>
               (case write_file out_path t w1 of
                  Inl e \<Rightarrow> (Inl e, w1)
                | Inr w2 \<Rightarrow> (Inr (), w2))))"

subsection \<open>Reading the file back\<close>

text \<open>
  The reader of the module \<^verbatim>\<open>csv\<close> with the same dialect, on the file opened with
  \<^verbatim>\<open>newline=""\<close> as the module asks: the automaton of the library, without escape
  character, not strict, and with no limit on the size of a field. The file is read line
  by line; a line ends after LF, after a CR that no LF follows, and at the end of the text.
  The reader is fed the characters of the line and then the end-of-line event; a record is
  complete when the automaton is back in its start state after that event.
\<close>

datatype rstate =
  START_RECORD | START_FIELD | IN_FIELD | IN_QUOTED_FIELD | QUOTE_IN_QUOTED_FIELD | EAT_CRNL

datatype event = Ch char | EOL

record parser =
  pstate :: rstate
  cur_field :: string
  cur_fields :: "string list"
  records :: "string list list"

definition parse_save_field :: "rstate \<Rightarrow> parser \<Rightarrow> parser" where
  "parse_save_field st ps = ps\<lparr>cur_fields := cur_fields ps @ [cur_field ps], cur_field := [], pstate := st\<rparr>"

definition parse_add_char :: "rstate \<Rightarrow> char \<Rightarrow> parser \<Rightarrow> parser" where
  "parse_add_char st c ps = ps\<lparr>cur_field := cur_field ps @ [c], pstate := st\<rparr>"

definition start_field :: "parser \<Rightarrow> event \<Rightarrow> parser option" where
  "start_field ps ev =
     (case ev of
        EOL \<Rightarrow> Some (parse_save_field START_RECORD ps)
      | Ch c \<Rightarrow>
          if c = LF \<or> c = CR then Some (parse_save_field EAT_CRNL ps)
          else if c = DQ then Some (ps\<lparr>pstate := IN_QUOTED_FIELD\<rparr>)
          else if c = COMMA then Some (parse_save_field START_FIELD ps)
          else Some (parse_add_char IN_FIELD c ps))"

definition parse_process_char :: "parser \<Rightarrow> event \<Rightarrow> parser option" where
  "parse_process_char ps ev =
     (case pstate ps of
        START_RECORD \<Rightarrow>
          (case ev of
             EOL \<Rightarrow> Some ps
           | Ch c \<Rightarrow>
               if c = LF \<or> c = CR then Some (ps\<lparr>pstate := EAT_CRNL\<rparr>)
               else start_field ps ev)
      | START_FIELD \<Rightarrow> start_field ps ev
      | IN_FIELD \<Rightarrow>
          (case ev of
             EOL \<Rightarrow> Some (parse_save_field START_RECORD ps)
           | Ch c \<Rightarrow>
               if c = LF \<or> c = CR then Some (parse_save_field EAT_CRNL ps)
               else if c = COMMA then Some (parse_save_field START_FIELD ps)
               else Some (parse_add_char IN_FIELD c ps))
      | IN_QUOTED_FIELD \<Rightarrow>
          (case ev of
             EOL \<Rightarrow> Some ps
           | Ch c \<Rightarrow>
               if c = DQ then Some (ps\<lparr>pstate := QUOTE_IN_QUOTED_FIELD\<rparr>)
               else Some (parse_add_char IN_QUOTED_FIELD c ps))
      | QUOTE_IN_QUOTED_FIELD \<Rightarrow>
          (case ev of
             EOL \<Rightarrow> Some (parse_save_field START_RECORD ps)
           | Ch c \<Rightarrow>
               if c = DQ then Some (parse_add_char IN_QUOTED_FIELD c ps)
               else if c = COMMA then Some (parse_save_field START_FIELD ps)
               else if c = LF \<or> c = CR then Some (parse_save_field EAT_CRNL ps)
               else Some (parse_add_char IN_FIELD c ps))
      | EAT_CRNL \<Rightarrow>
          (case ev of
             EOL \<Rightarrow> Some (ps\<lparr>pstate := START_RECORD\<rparr>)
           | Ch c \<Rightarrow> if c = LF \<or> c = CR then Some ps else None))"

definition line_end :: "char \<Rightarrow> string \<Rightarrow> bool" where
  "line_end c rest =
     (c = LF \<or> (c = CR \<and> (case rest of [] \<Rightarrow> True | d # ds \<Rightarrow> d \<noteq> LF)) \<or> rest = [])"

definition next_record :: "parser \<Rightarrow> parser" where
  "next_record ps =
     (if pstate ps = START_RECORD then ps\<lparr>records := records ps @ [cur_fields ps], cur_fields := []\<rparr>
      else ps)"

fun feed :: "parser \<Rightarrow> string \<Rightarrow> parser option" where
  "feed ps [] = Some ps"
| "feed ps (c # rest) =
     (case parse_process_char ps (Ch c) of
        None \<Rightarrow> None
      | Some ps1 \<Rightarrow>
          if line_end c rest then
            (case parse_process_char ps1 EOL of
               None \<Rightarrow> None
             | Some ps2 \<Rightarrow> feed (next_record ps2) rest)
          else feed ps1 rest)"

declare feed.simps(2) [simp del]

definition csv_reader :: "string \<Rightarrow> string list list option" where
  "csv_reader t =
     (case feed \<lparr>pstate = START_RECORD, cur_field = [], cur_fields = [], records = []\<rparr> t of
        None \<Rightarrow> None
      | Some ps \<Rightarrow>
          Some (if cur_field ps \<noteq> [] \<or> pstate ps = IN_QUOTED_FIELD
                then records ps @ [cur_fields ps @ [cur_field ps]] else records ps))"

section \<open>The run controller\<close>

text \<open>
  How a run ends early: \<^verbatim>\<open>SystemExit\<close> with its message, or an exception nobody
  catches. Either way the process prints the message or the traceback on the error stream
  and exits with status 1; a run that returns exits with status 0.
\<close>

datatype failure = SystemExit string | Uncaught pyexc

definition exit_status :: "(failure + unit) \<Rightarrow> nat" where
  "exit_status r = (case r of Inl f \<Rightarrow> 1 | Inr u \<Rightarrow> 0)"

definition run_one ::
  "string \<Rightarrow> (string \<times> adapter) list \<Rightarrow> world \<Rightarrow> (failure + Course list) \<times> world" where
  "run_one k reg w =
     (case dict_get reg k of
        None \<Rightarrow>
          (Inl (SystemExit (''Unknown site key: '' @ k @ ''. Use --list-sites to see options.'')), w)
      | Some adapter \<Rightarrow>
          (case iter_courses adapter w of
             (Inl e, w1) \<Rightarrow> (Inl (Uncaught e), w1)
           | (Inr courses, w1) \<Rightarrow> (Inr courses, w1)))"

text \<open>
  The loop of \<^verbatim>\<open>run_all\<close> over the items of the registry, with the list
  \<^verbatim>\<open>all_courses\<close> it extends and the lines it has logged with
  \<^verbatim>\<open>logging.warning(f"{adapter.display_name}: {e}")\<close>. The run returns the courses; the
  lines logged are given beside them.
\<close>

fun run_all_loop ::
  "(string \<times> adapter) list \<Rightarrow> Course list \<Rightarrow> string list \<Rightarrow> world \<Rightarrow>
   Course list \<times> string list \<times> world" where
  "run_all_loop [] all_courses logged w = (all_courses, logged, w)"
| "run_all_loop ((k, a) # rest) all_courses logged w =
     (if k = ''base'' then run_all_loop rest all_courses logged w
      else
        (case iter_courses a w of
           (Inr items, w1) \<Rightarrow> run_all_loop rest (all_courses @ items) logged w1
         | (Inl e, w1) \<Rightarrow>
             run_all_loop rest all_courses (logged @ [display_name a @ '': '' @ str_exc e]) w1))"

definition run_all ::
  "(string \<times> adapter) list \<Rightarrow> world \<Rightarrow> Course list \<times> string list \<times> world" where
  "run_all reg w = run_all_loop reg [] [] w"

subsection \<open>The command line\<close>

text \<open>
  The arguments as \<^verbatim>\<open>argparse\<close> returns them: \<^verbatim>\<open>--site\<close> (absent, or its value),
  \<^verbatim>\<open>--all\<close>, \<^verbatim>\<open>--out\<close> and \<^verbatim>\<open>--list-sites\<close>. The tests \<^verbatim>\<open>args.site and ...\<close> and
  \<^verbatim>\<open>not args.site\<close> take an absent site and an empty one alike.
\<close>

record args =
  site :: "string option"
  all_sites :: bool
  out :: string
  list_sites :: bool

definition given :: "string option \<Rightarrow> bool" where
  "given s = (case s of None \<Rightarrow> False | Some v \<Rightarrow> v \<noteq> [])"

definition print :: "string \<Rightarrow> world \<Rightarrow> world" where
  "print line w = w\<lparr>printed := printed w @ [line]\<rparr>"

text \<open>
  \<^verbatim>\<open>len(s)\<close> counts characters: the bytes of the UTF-8 text that do not continue a
  character. \<^verbatim>\<open>f"  {k:20s} -> {a.display_name}"\<close>: the key padded with spaces to 20
  characters.
\<close>

definition continuation :: "char \<Rightarrow> bool" where
  "continuation c = (CHR 0x80 \<le> c \<and> c < CHR 0xC0)"

definition py_len :: "string \<Rightarrow> nat" where
  "py_len s = length (filter (\<lambda>c. \<not> continuation c) s)"

definition site_line :: "string \<times> adapter \<Rightarrow> string" where
  "site_line ka =
     ''  '' @ fst ka @ replicate (20 - py_len (fst ka)) CHR '' '' @ '' -> '' @ display_name (snd ka)"

definition main :: "args \<Rightarrow> (string \<times> adapter) list \<Rightarrow> world \<Rightarrow> (failure + unit) \<times> world" where
  "main a reg w =
     (if list_sites a then
        (Inr (),
         foldl (\<lambda>w ka. if fst ka = ''base'' then w else print (site_line ka) w)
           (print ''Available site keys:'' w) reg)
      else if given (site a) \<and> all_sites a then
        (Inl (SystemExit ''Use either --site or --all, not both.''), w)
      else if \<not> given (site a) \<and> \<not> all_sites a then
        (Inl (SystemExit ''Please specify --site <key> or --all. Use --list-sites to see keys.''), w)
      else
        (case (if given (site a) then run_one (the (site a)) reg w
               else (case run_all reg w of (cs, logged, w1) \<Rightarrow> (Inr cs, w1))) of
           (Inl f, w1) \<Rightarrow> (Inl f, w1)
         | (Inr courses, w1) \<Rightarrow>
             (case write_csv courses (out a) w1 of
                (Inl e, w2) \<Rightarrow> (Inl (Uncaught e), w2)
              | (Inr u, w2) \<Rightarrow>
                  (Inr (),
                   print (''Wrote '' @ str_nat (length courses) @ '' rows -> '' @ out a) w2))))"

text \<open>
  The number of requests made between two worlds; a failing attempt in the words of the
  specification (a network exception, or a status of 400 or more); its formula for the
  wait after the failed attempt number \<open>attempt\<close>.
\<close>

definition attempts_made :: "world \<Rightarrow> world \<Rightarrow> nat" where
  "attempts_made w w' = length (requested w') - length (requested w)"

definition attempt_fails :: "outcome \<Rightarrow> bool" where
  "attempt_fails x =
     (case x of
        Raises (RequestException m) \<Rightarrow> True
      | Raises e \<Rightarrow> False
      | Responds resp \<Rightarrow> status_code resp \<ge> 400)"

definition backoff :: "policy \<Rightarrow> nat \<Rightarrow> int" where
  "backoff p attempt = max (min_wait p) (min (max_wait p) (multiplier p * 2 ^ (attempt - 1)))"

text \<open>Worlds to run the program in: an empty page, a network that answers, one that fails
  twice and then answers, one that never answers.\<close>

definition empty_page :: html where
  "empty_page = \<lparr>anchors = [], first_heading = None, title_el = None\<rparr>"

definition ok_response :: response where
  "ok_response = \<lparr>status_code = 200, body = empty_page\<rparr>"

definition world_of :: "(nat \<Rightarrow> string \<Rightarrow> outcome) \<Rightarrow> world" where
  "world_of t = \<lparr>transport = t, requested = [], slept = [], printed = [],
                 dirs = {}, files = Map.empty\<rparr>"

definition flaky_world :: world where
  "flaky_world =
     world_of (\<lambda>n u. if n = 0 then Raises (RequestException ''timed out'')
                      else if n = 1 then Responds \<lparr>status_code = 503, body = empty_page\<rparr>
                      else Responds ok_response)"

definition dead_world :: world where
  "dead_world = world_of (\<lambda>n u. Raises (RequestException ''unreachable''))"

section \<open>The claims in the words of the specification\<close>

subsection \<open>The all-sources run\<close>

text \<open>
  The all-sources run as the specification words it: every entry of the registry is
  attempted, in registration order, each in the world the one before it left; the records
  of the run are those of the attempts that returned, concatenated; each attempt that
  raised gives one line of the log, the display name and the message.
\<close>

fun attempts ::
  "(string \<times> adapter) list \<Rightarrow> world \<Rightarrow> (adapter \<times> (pyexc + Course list)) list \<times> world" where
  "attempts [] w = ([], w)"
| "attempts ((k, a) # rest) w =
     (case iter_courses a w of
        (r, w1) \<Rightarrow> (case attempts rest w1 of (rs, w2) \<Rightarrow> ((a, r) # rs, w2)))"

definition records_of :: "adapter \<times> (pyexc + Course list) \<Rightarrow> Course list" where
  "records_of ar = (case snd ar of Inl e \<Rightarrow> [] | Inr cs \<Rightarrow> cs)"

definition warnings_of :: "adapter \<times> (pyexc + Course list) \<Rightarrow> string list" where
  "warnings_of ar =
     (case snd ar of Inl e \<Rightarrow> [display_name (fst ar) @ '': '' @ str_exc e] | Inr cs \<Rightarrow> [])"

definition aggregate ::
  "(string \<times> adapter) list \<Rightarrow> world \<Rightarrow> Course list \<times> string list \<times> world" where
  "aggregate reg w =
     (case attempts reg w of
        (rs, w1) \<Rightarrow> (concat (map records_of rs), concat (map warnings_of rs), w1))"

text \<open>
  Registries to run: an adapter that ignores the network and yields a given result; the
  scenario of the specification (A yields two records, B raises, C yields none); a registry
  whose only entry has the key of the base class; one whose only adapter forbids scraping.
\<close>

definition fake_adapter :: "string \<Rightarrow> string \<Rightarrow> bool \<Rightarrow> (pyexc + Course list) \<Rightarrow> adapter" where
  "fake_adapter k name allowed r =
     \<lparr>key = k, display_name = name, base_url = ''https://'' @ k @ ''.example'',
      is_allowed = allowed, iter_courses = (\<lambda>w. (r, w))\<rparr>"

definition course_a1 :: Course where
  "course_a1 = mk_course ''https://a.example/course/1'' ''One'' ''https://a.example/course/1'' ''A''"

definition course_a2 :: Course where
  "course_a2 = mk_course ''https://a.example/course/2'' ''Two'' ''https://a.example/course/2'' ''A''"

definition registry_abc :: "(string \<times> adapter) list" where
  "registry_abc =
     register (fake_adapter ''c'' ''C'' True (Inr []))
       (register (fake_adapter ''b'' ''B'' True (Inl (OtherException ''AdapterError'')))
         (register (fake_adapter ''a'' ''A'' True (Inr [course_a1, course_a2])) []))"

definition registry_base :: "(string \<times> adapter) list" where
  "registry_base = register (fake_adapter ''base'' ''Base'' True (Inr [course_a1])) []"

definition registry_blocked :: "(string \<times> adapter) list" where
  "registry_blocked = register (fake_adapter ''blocked'' ''Blocked'' False (Inr [course_a1])) []"

subsection \<open>The rows of the output\<close>

text \<open>
  The row of a record in the words of the specification: its fourteen fields in the order of
  the columns, an absent field rendered as the empty string, a truth value and a number as
  Python prints them. Three records with fields present and absent, one of them with a
  comma, quotes and a line break in its title.
\<close>

definition rendered :: "('a \<Rightarrow> string) \<Rightarrow> 'a option \<Rightarrow> string" where
  "rendered f x = (case x of None \<Rightarrow> [] | Some v \<Rightarrow> f v)"

definition row_cells :: "Course \<Rightarrow> string list" where
  "row_cells c =
     [course_id c, course_title c, url c, rendered str_bool (is_paid c),
      rendered (\<lambda>s. s) (price c), rendered str_int (num_subscribers c),
      rendered str_int (num_reviews c), rendered str_int (num_lectures c),
      rendered (\<lambda>s. s) (level c), rendered (\<lambda>s. s) (content_duration c),
      rendered (\<lambda>s. s) (published_timestamp c), rendered (\<lambda>s. s) (subject c),
      rendered (\<lambda>s. s) (provider c), rendered (\<lambda>s. s) (language c)]"

definition course_full :: Course where
  "course_full =
     \<lparr>course_id = ''c1'', course_title = ''Data, '' @ [DQ] @ ''Cloud'' @ [DQ, LF] @ ''and AI'',
      url = ''https://a.example/course/1'', is_paid = Some True, price = Some ''1,200 ETB'',
      num_subscribers = Some 1500, num_reviews = Some 0, num_lectures = Some 12,
      level = Some ''Beginner'', content_duration = Some ''3 hours'',
      published_timestamp = Some ''2024-01-05T00:00:00Z'', subject = Some ''ICT'',
      provider = Some ''A'', language = Some ''Amharic''\<rparr>"

definition three_courses :: "Course list" where
  "three_courses = [course_full, course_a1, course_a2\<lparr>is_paid := Some False, price := Some []\<rparr>]"

subsection \<open>Worlds for the adapters\<close>

text \<open>
  A site whose homepage links twice to a course, once to a training and once to a page that
  is no course, out of order; a site whose homepage links to a grade; the courses the
  adapters build from them.
\<close>

definition home_page :: html where
  "home_page =
     \<lparr>anchors =
        [\<lparr>href = Some ''/training/b'', anchor_text = ''Training B'', in_coursebox = False,
          in_course_title = False, has_coursename = False\<rparr>,
         \<lparr>href = Some ''/course/a'', anchor_text = ''Course A'', in_coursebox = False,
          in_course_title = False, has_coursename = False\<rparr>,
         \<lparr>href = Some ''/course/a'', anchor_text = ''Again'', in_coursebox = False,
          in_course_title = False, has_coursename = False\<rparr>,
         \<lparr>href = Some ''/about'', anchor_text = ''About'', in_coursebox = False,
          in_course_title = False, has_coursename = False\<rparr>],
      first_heading = None, title_el = None\<rparr>"

definition course_page :: html where
  "course_page = \<lparr>anchors = [], first_heading = Some ''Course A'', title_el = None\<rparr>"

definition campus_world :: world where
  "campus_world =
     world_of (\<lambda>n u.
       if u = ''https://learning.gov.et'' then Responds \<lparr>status_code = 200, body = home_page\<rparr>
       else if u = ''https://learning.gov.et/course/a''
         then Responds \<lparr>status_code = 200, body = course_page\<rparr>
       else if u = ''https://learning.gov.et/training/b''
         then Responds \<lparr>status_code = 200, body = empty_page\<rparr>
       else Raises (RequestException ''unreachable''))"


definition course_a :: Course where
  "course_a = mk_course ''https://learning.gov.et/course/a'' ''Course A''
     ''https://learning.gov.et/course/a'' ''Learning.gov.et''"

definition course_b :: Course where
  "course_b = mk_course ''https://learning.gov.et/training/b'' ''https://learning.gov.et/training/b''
     ''https://learning.gov.et/training/b'' ''Learning.gov.et''"

definition grade_page :: html where
  "grade_page =
     \<lparr>anchors =
        [\<lparr>href = Some ''/grade/1'', anchor_text = [], in_coursebox = False,
          in_course_title = False, has_coursename = False\<rparr>],
      first_heading = None, title_el = None\<rparr>"

definition school_world :: world where
  "school_world = world_of (\<lambda>n u. Responds \<lparr>status_code = 200, body = grade_page\<rparr>)"

definition grade_course :: Course where
  "grade_course =
     (mk_course ''https://smartethio.com/grade/1'' ''https://smartethio.com/grade/1''
        ''https://smartethio.com/grade/1'' ''SmartEthio'')\<lparr>subject := Some ''K12''\<rparr>"

subsection \<open>The policy gate\<close>

text \<open>A registry with the answers of \<^verbatim>\<open>is_allowed\<close> replaced: entry by entry, the
  adapter answers what \<open>g\<close> says.\<close>

definition with_policy ::
  "(string \<times> adapter \<Rightarrow> bool) \<Rightarrow> (string \<times> adapter) list \<Rightarrow> (string \<times> adapter) list" where
  "with_policy g reg = map (\<lambda>ka. (fst ka, (snd ka)\<lparr>is_allowed := g ka\<rparr>)) reg"

subsection \<open>Command lines\<close>

text \<open>
  The fatal invocations: both a site and \<^verbatim>\<open>--all\<close>, neither of them, or a site that is
  no key of the registry. A site counts as given when its value is not empty, as
  \<^verbatim>\<open>main\<close> tests it.
\<close>

definition fatal :: "args \<Rightarrow> (string \<times> adapter) list \<Rightarrow> bool" where
  "fatal a reg =
     (given (site a) \<and> all_sites a \<or> \<not> given (site a) \<and> \<not> all_sites a \<or>
      given (site a) \<and> \<not> all_sites a \<and> dict_get reg (the (site a)) = None)"

definition empty_site_args :: args where
  "empty_site_args =
     \<lparr>site = Some [], all_sites = True, out = ''data/courses.csv'', list_sites = False\<rparr>"


definition listing_args :: args where
  "listing_args =
     \<lparr>site = Some ''learninggov'', all_sites = True, out = ''data/courses.csv'', list_sites = True\<rparr>"

definition both_args :: args where
  "both_args =
     \<lparr>site = Some ''learninggov'', all_sites = True, out = ''data/courses.csv'', list_sites = False\<rparr>"

definition neither_args :: args where
  "neither_args =
     \<lparr>site = None, all_sites = False, out = ''data/courses.csv'', list_sites = False\<rparr>"

definition unknown_args :: args where
  "unknown_args =
     \<lparr>site = Some ''udemy'', all_sites = False, out = ''data/courses.csv'', list_sites = False\<rparr>"

section \<open>Properties of the fetch primitive\<close>

lemma get_attempt_world:
  "snd (get_attempt u w) = w\<lparr>requested := requested w @ [u]\<rparr>"
  by (simp add: get_attempt_def session_get_def split: outcome.splits)

lemma get_attempt_fails:
  "attempt_fails (transport w (length (requested w)) u) \<Longrightarrow>
   \<exists>e. fst (get_attempt u w) = Inl e \<and> retry_if_exception_type e"
  by (auto simp: get_attempt_def session_get_def attempt_fails_def split: outcome.splits pyexc.splits)

lemma get_attempt_succeeds:
  "transport w (length (requested w)) u = Responds r \<Longrightarrow> status_code r < 400 \<Longrightarrow>
   fst (get_attempt u w) = Inr r"
  by (auto simp: get_attempt_def session_get_def)

lemma retrying_success:
  "fst (get_attempt u w) = Inr r \<Longrightarrow> retrying p n u w = (Inr r, snd (get_attempt u w))"
  by (cases "get_attempt u w") (simp add: retrying.simps [of p n u w])

lemma retrying_fatal:
  "fst (get_attempt u w) = Inl e \<Longrightarrow> \<not> retry_if_exception_type e \<Longrightarrow>
   retrying p n u w = (Inl e, snd (get_attempt u w))"
  by (cases "get_attempt u w") (simp add: retrying.simps [of p n u w])

lemma retrying_stop:
  "fst (get_attempt u w) = Inl e \<Longrightarrow> retry_if_exception_type e \<Longrightarrow> max_attempts p \<le> n \<Longrightarrow>
   retrying p n u w = (Inl (RetryError e), snd (get_attempt u w))"
  by (cases "get_attempt u w") (simp add: retrying.simps [of p n u w] stop_after_attempt_def)

lemma retrying_again:
  "fst (get_attempt u w) = Inl e \<Longrightarrow> retry_if_exception_type e \<Longrightarrow> n < max_attempts p \<Longrightarrow>
   retrying p n u w = retrying p (Suc n) u (sleep (wait_exponential p n) (snd (get_attempt u w)))"
  by (cases "get_attempt u w") (simp add: retrying.simps [of p n u w] stop_after_attempt_def)



lemma retrying_trace:
  "\<exists>k\<ge>1. k \<le> max 1 (Suc (max_attempts p) - n) \<and>
      requested (snd (retrying p n u w)) = requested w @ replicate k u \<and>
      slept (snd (retrying p n u w)) = slept w @ map (wait_exponential p) [n..<n + k - 1] \<and>
      transport (snd (retrying p n u w)) = transport w"
proof (induction p n u w rule: retrying.induct)
  case (1 p n u w)
  obtain res w1 where ga: "get_attempt u w = (res, w1)" by (cases "get_attempt u w")
  have w1: "w1 = w\<lparr>requested := requested w @ [u]\<rparr>"
    using get_attempt_world [of u w] ga by simp
  show ?case
  proof (cases res)
    case (Inr r)
    then have "retrying p n u w = (Inr r, w1)" using ga retrying_success by simp
    then show ?thesis using w1 by (intro exI [of _ 1]) simp
  next
    case (Inl e)
    show ?thesis
    proof (cases "retry_if_exception_type e")
      case False
      then have "retrying p n u w = (Inl e, w1)"
        using ga Inl retrying_fatal by simp
      then show ?thesis using w1 by (intro exI [of _ 1]) simp
    next
      case True
      show ?thesis
      proof (cases "max_attempts p \<le> n")
        case True
        then have "retrying p n u w = (Inl (RetryError e), w1)"
          using ga Inl \<open>retry_if_exception_type e\<close> retrying_stop by simp
        then show ?thesis using w1 by (intro exI [of _ 1]) simp
      next
        case False
        let ?w2 = "sleep (wait_exponential p n) w1"
        have eq: "retrying p n u w = retrying p (Suc n) u ?w2"
          using ga Inl \<open>retry_if_exception_type e\<close> False retrying_again by simp
        have "\<not> stop_after_attempt (max_attempts p) n" using False by (simp add: stop_after_attempt_def)
        with "1.IH" [OF ga [symmetric] Inl] True
        obtain k where k: "k \<ge> 1" "k \<le> max 1 (Suc (max_attempts p) - Suc n)"
          "requested (snd (retrying p (Suc n) u ?w2)) = requested ?w2 @ replicate k u"
          "slept (snd (retrying p (Suc n) u ?w2)) = slept ?w2 @ map (wait_exponential p) [Suc n..<Suc n + k - 1]"
          "transport (snd (retrying p (Suc n) u ?w2)) = transport ?w2"
          by auto
        have "[n..<n + Suc k - 1] = n # [Suc n..<Suc n + k - 1]"
          using k(1) by (simp add: upt_conv_Cons)
        then show ?thesis
          using k False unfolding eq
          by (intro exI [of _ "Suc k"]) (auto simp: w1 sleep_def replicate_append_same)
      qed
    qed
  qed
qed


lemma retrying_fail_step:
  assumes "attempt_fails (transport w (length (requested w)) u)" "n < max_attempts p"
  shows "retrying p n u w =
         retrying p (Suc n) u (sleep (wait_exponential p n) (w\<lparr>requested := requested w @ [u]\<rparr>))"
proof -
  obtain e where "fst (get_attempt u w) = Inl e" "retry_if_exception_type e"
    using get_attempt_fails [OF assms(1)] by blast
  then show ?thesis using retrying_again [OF _ _ assms(2)] by (simp add: get_attempt_world)
qed

lemma retrying_fail_last:
  assumes "attempt_fails (transport w (length (requested w)) u)" "max_attempts p \<le> n"
  shows "\<exists>e. retrying p n u w = (Inl (RetryError e), w\<lparr>requested := requested w @ [u]\<rparr>)"
proof -
  obtain e where "fst (get_attempt u w) = Inl e" "retry_if_exception_type e"
    using get_attempt_fails [OF assms(1)] by blast
  then show ?thesis using retrying_stop [OF _ _ assms(2)] by (simp add: get_attempt_world)
qed

lemma retrying_ok:
  assumes "transport w (length (requested w)) u = Responds r" "status_code r < 400"
  shows "retrying p n u w = (Inr r, w\<lparr>requested := requested w @ [u]\<rparr>)"
  using retrying_success [OF get_attempt_succeeds [OF assms]] by (simp add: get_attempt_world)

lemma get_fail_fail_ok:
  assumes "attempt_fails (transport w (length (requested w)) u)"
    "attempt_fails (transport w (length (requested w) + 1) u)"
    "transport w (length (requested w) + 2) u = Responds r" "status_code r < 400"
  shows "get u w = (Inr r, w\<lparr>requested := requested w @ [u, u, u], slept := slept w @ [1, 2]\<rparr>)"
proof -
  let ?w1 = "sleep (wait_exponential get_policy 1) (w\<lparr>requested := requested w @ [u]\<rparr>)"
  let ?w2 = "sleep (wait_exponential get_policy 2) (?w1\<lparr>requested := requested ?w1 @ [u]\<rparr>)"
  have 1: "get u w = retrying get_policy 2 u ?w1"
    unfolding get_def using retrying_fail_step [OF assms(1), of 1 get_policy]
    by (simp add: get_policy_def numeral_2_eq_2)
  have 2: "retrying get_policy 2 u ?w1 = retrying get_policy 3 u ?w2"
    using retrying_fail_step [of ?w1 u 2 get_policy] assms(2)
    by (simp add: get_policy_def sleep_def numeral_3_eq_3 numeral_2_eq_2)
  have 3: "retrying get_policy 3 u ?w2 = (Inr r, ?w2\<lparr>requested := requested ?w2 @ [u]\<rparr>)"
    using retrying_ok [of ?w2 u r get_policy 3] assms(3,4) by (simp add: sleep_def)
  show ?thesis unfolding 1 2 3
    by (simp add: sleep_def wait_exponential_def get_policy_def)
qed

lemma get_fail_fail_fail:
  assumes "attempt_fails (transport w (length (requested w)) u)"
    "attempt_fails (transport w (length (requested w) + 1) u)"
    "attempt_fails (transport w (length (requested w) + 2) u)"
  shows "\<exists>e. get u w = (Inl (RetryError e), w\<lparr>requested := requested w @ [u, u, u], slept := slept w @ [1, 2]\<rparr>)"
proof -
  let ?w1 = "sleep (wait_exponential get_policy 1) (w\<lparr>requested := requested w @ [u]\<rparr>)"
  let ?w2 = "sleep (wait_exponential get_policy 2) (?w1\<lparr>requested := requested ?w1 @ [u]\<rparr>)"
  have 1: "get u w = retrying get_policy 2 u ?w1"
    unfolding get_def using retrying_fail_step [OF assms(1), of 1 get_policy]
    by (simp add: get_policy_def numeral_2_eq_2)
  have 2: "retrying get_policy 2 u ?w1 = retrying get_policy 3 u ?w2"
    using retrying_fail_step [of ?w1 u 2 get_policy] assms(2)
    by (simp add: get_policy_def sleep_def numeral_3_eq_3 numeral_2_eq_2)
  obtain e where 3: "retrying get_policy 3 u ?w2 = (Inl (RetryError e), ?w2\<lparr>requested := requested ?w2 @ [u]\<rparr>)"
    using retrying_fail_last [of ?w2 u get_policy 3] assms(3) by (auto simp: sleep_def get_policy_def)
  show ?thesis unfolding 1 2 3
    by (simp add: sleep_def wait_exponential_def get_policy_def)
qed

lemma get_trace:
  "\<exists>k\<ge>1. k \<le> 3 \<and>
      requested (snd (get u w)) = requested w @ replicate k u \<and>
      slept (snd (get u w)) = slept w @ map (wait_exponential get_policy) [1..<k] \<and>
      transport (snd (get u w)) = transport w"
  using retrying_trace [of get_policy 1 u w] unfolding get_def
  by (auto simp: get_policy_def)

lemma wait_exponential_get: "wait_exponential get_policy a = backoff get_policy a"
  by (simp add: wait_exponential_def backoff_def get_policy_def)

text \<open>
  Claim C2. Whatever the URL and the network, \<^verbatim>\<open>get\<close> makes at least one and at most three
  requests. When the first two attempts fail (a network exception or a status of 400 or
  more) and the third is answered with a status below 400, \<^verbatim>\<open>get\<close> returns that
  response, after three requests. When the three attempts fail, \<^verbatim>\<open>get\<close> raises the
  retry error (the FetchError of the specification) after exactly three requests: there is
  no fourth.
\<close>

theorem get_three_attempts:
  "1 \<le> attempts_made w (snd (get u w)) \<and> attempts_made w (snd (get u w)) \<le> 3 \<and>
   (attempt_fails (transport w (length (requested w)) u) \<and>
    attempt_fails (transport w (length (requested w) + 1) u) \<and>
    transport w (length (requested w) + 2) u = Responds r \<and> status_code r < 400
    \<longrightarrow> fst (get u w) = Inr r \<and> attempts_made w (snd (get u w)) = 3) \<and>
   (attempt_fails (transport w (length (requested w)) u) \<and>
    attempt_fails (transport w (length (requested w) + 1) u) \<and>
    attempt_fails (transport w (length (requested w) + 2) u)
    \<longrightarrow> (\<exists>e. fst (get u w) = Inl (RetryError e)) \<and> attempts_made w (snd (get u w)) = 3)"
proof -
  obtain k where k: "k \<ge> 1" "k \<le> 3" "requested (snd (get u w)) = requested w @ replicate k u"
    using get_trace [of u w] by blast
  have a: "1 \<le> attempts_made w (snd (get u w)) \<and> attempts_made w (snd (get u w)) \<le> 3"
    using k by (simp add: attempts_made_def)
  have b: "fst (get u w) = Inr r \<and> attempts_made w (snd (get u w)) = 3"
    if "attempt_fails (transport w (length (requested w)) u)"
      "attempt_fails (transport w (length (requested w) + 1) u)"
      "transport w (length (requested w) + 2) u = Responds r" "status_code r < 400"
    using get_fail_fail_ok [OF that] by (simp add: attempts_made_def)
  have c: "(\<exists>e. fst (get u w) = Inl (RetryError e)) \<and> attempts_made w (snd (get u w)) = 3"
    if "attempt_fails (transport w (length (requested w)) u)"
      "attempt_fails (transport w (length (requested w) + 1) u)"
      "attempt_fails (transport w (length (requested w) + 2) u)"
    using get_fail_fail_fail [OF that] by (auto simp: attempts_made_def)
  show ?thesis using a b c by blast
qed

theorem get_three_attempts_witness:
  "(attempt_fails (transport flaky_world 0 ''https://learning.gov.et'') \<and>
    attempt_fails (transport flaky_world 1 ''https://learning.gov.et'') \<and>
    transport flaky_world 2 ''https://learning.gov.et'' = Responds ok_response \<and>
    status_code ok_response < 400 \<and>
    fst (get ''https://learning.gov.et'' flaky_world) = Inr ok_response \<and>
    attempts_made flaky_world (snd (get ''https://learning.gov.et'' flaky_world)) = 3) \<and>
   (attempt_fails (transport dead_world 0 ''https://learning.gov.et'') \<and>
    attempt_fails (transport dead_world 1 ''https://learning.gov.et'') \<and>
    attempt_fails (transport dead_world 2 ''https://learning.gov.et'') \<and>
    (\<exists>e. fst (get ''https://learning.gov.et'' dead_world) = Inl (RetryError e)) \<and>
    attempts_made dead_world (snd (get ''https://learning.gov.et'' dead_world)) = 3)"
  using get_three_attempts [of flaky_world "''https://learning.gov.et''" ok_response]
    get_three_attempts [of dead_world "''https://learning.gov.et''"]
  by (simp add: flaky_world_def dead_world_def world_of_def attempt_fails_def ok_response_def)

text \<open>
  Claim C5. The waits \<^verbatim>\<open>get\<close> sleeps are, in order, the values of the formula
  \<open>min(max_wait, multiplier * 2^(attempt - 1))\<close>, clamped below by the minimum, at the attempt
  numbers 1, 2, ... of the failed attempts that were retried, with the decorator's values
  (multiplier 1, minimum 1, maximum 8); when the three attempts fail the waits are 1 and
  then 2 seconds.
\<close>

theorem get_backoff_waits:
  "slept (snd (get u w)) =
     slept w @ map (backoff get_policy) [1..<attempts_made w (snd (get u w))] \<and>
   (attempt_fails (transport w (length (requested w)) u) \<and>
    attempt_fails (transport w (length (requested w) + 1) u) \<and>
    attempt_fails (transport w (length (requested w) + 2) u)
    \<longrightarrow> slept (snd (get u w)) = slept w @ [1, 2])"
proof -
  obtain k where k: "k \<ge> 1" "requested (snd (get u w)) = requested w @ replicate k u"
    "slept (snd (get u w)) = slept w @ map (wait_exponential get_policy) [1..<k]"
    using get_trace [of u w] by blast
  have "attempts_made w (snd (get u w)) = k" using k by (simp add: attempts_made_def)
  then have a: "slept (snd (get u w)) =
     slept w @ map (backoff get_policy) [1..<attempts_made w (snd (get u w))]"
    using k(3) by (simp add: wait_exponential_get)
  have c: "slept (snd (get u w)) = slept w @ [1, 2]"
    if "attempt_fails (transport w (length (requested w)) u)"
      "attempt_fails (transport w (length (requested w) + 1) u)"
      "attempt_fails (transport w (length (requested w) + 2) u)"
    using get_fail_fail_fail [OF that] by auto
  show ?thesis using a c by blast
qed


theorem get_backoff_waits_witness:
  "attempt_fails (transport dead_world 0 ''https://learning.gov.et'') \<and>
   attempt_fails (transport dead_world 1 ''https://learning.gov.et'') \<and>
   attempt_fails (transport dead_world 2 ''https://learning.gov.et'') \<and>
   slept (snd (get ''https://learning.gov.et'' dead_world)) = [1, 2] \<and>
   map (backoff get_policy) [1..<3] = [1, 2]"
proof -
  have h: "attempt_fails (transport dead_world 0 ''https://learning.gov.et'') \<and>
      attempt_fails (transport dead_world 1 ''https://learning.gov.et'') \<and>
      attempt_fails (transport dead_world 2 ''https://learning.gov.et'')"
    by (simp add: dead_world_def world_of_def attempt_fails_def)
  have z: "requested dead_world = []" "slept dead_world = []"
    by (simp_all add: dead_world_def world_of_def)
  have "slept (snd (get ''https://learning.gov.et'' dead_world)) = slept dead_world @ [1, 2]"
    by (rule mp [OF conjunct2 [OF get_backoff_waits [of "''https://learning.gov.et''" dead_world]]])
      (simp add: dead_world_def world_of_def attempt_fails_def)
  moreover have "map (backoff get_policy) [1..<3] = [1, 2]"
    by (simp add: backoff_def get_policy_def upt_rec)
  ultimately show ?thesis using h by (simp add: z)
qed

section \<open>Properties of the run controller\<close>

lemma run_all_loop_aggregate:
  "run_all_loop reg acc lg w =
     (case attempts (filter (\<lambda>ka. fst ka \<noteq> ''base'') reg) w of
        (rs, w1) \<Rightarrow> (acc @ concat (map records_of rs), lg @ concat (map warnings_of rs), w1))"
proof (induction reg acc lg w rule: run_all_loop.induct)
  case (1 acc lg w)
  then show ?case by simp
next
  case (2 k a rest acc lg w)
  show ?case
  proof (cases "k = ''base''")
    case True
    then show ?thesis using 2(1) by simp
  next
    case False
    obtain r w1 where it: "iter_courses a w = (r, w1)" by (cases "iter_courses a w")
    show ?thesis
    proof (cases r)
      case (Inl e)
      then show ?thesis using False it 2(2) [OF False it [symmetric] Inl]
        by (simp add: records_of_def warnings_of_def split: prod.splits)
    next
      case (Inr items)
      then show ?thesis using False it 2(3) [OF False it [symmetric] Inr]
        by (simp add: records_of_def warnings_of_def split: prod.splits)
    qed
  qed
qed

text \<open>
  Claim C1, as amended. For every registry and every world, \<^verbatim>\<open>run_all\<close> attempts, in
  registration order, every entry whose key is not \<^verbatim>\<open>"base"\<close>, and returns the
  concatenation of the records of the adapters that did not raise, each adapter's records
  in the order it produced them and nothing removed; an adapter that raises gives no record
  and one line of the log, its display name and the message, and the adapters after it are
  attempted all the same. An entry under the key \<^verbatim>\<open>"base"\<close> is never attempted.
\<close>

theorem run_all_aggregates:
  "run_all reg w = aggregate (filter (\<lambda>ka. fst ka \<noteq> ''base'') reg) w"
  by (simp add: run_all_def aggregate_def run_all_loop_aggregate)

theorem run_all_aggregates_witness:
  "run_all registry_abc dead_world = ([course_a1, course_a2], [''B: AdapterError''], dead_world)"
  using run_all_aggregates [of registry_abc dead_world]
  by (simp add: aggregate_def registry_abc_def register_def fake_adapter_def records_of_def
      warnings_of_def)

text \<open>
  The claim as it stands, over every entry of the registry, fails on a registry with an
  entry under the key \<^verbatim>\<open>"base"\<close>: its adapter yields a record and \<^verbatim>\<open>run_all\<close>
  returns none.
\<close>

theorem run_all_base_counterexample:
  "run_all registry_base dead_world \<noteq> aggregate registry_base dead_world"
  by (simp add: run_all_def aggregate_def registry_base_def register_def fake_adapter_def
      records_of_def)

section \<open>Properties of the adapters\<close>

lemma adapter_keys:
  "key LearningGovAdapter = ''learninggov''"
  "key LearnEthiopiaAdapter = ''learnethiopia''"
  "key EduHubAdapter = ''eduhubplc''"
  "key ALXAdapter = ''alx''"
  "key SmartEthioAdapter = ''smartethio''"
  "key AfriworkAdapter = ''afriwork''"
  "key KubayaAdapter = ''kubaya''"
  "key StaffordAdapter = ''staffordglobal''"
  "key ELearnETHAdapter = ''elearneth''"
  "key AAUAdapter = ''aau''"
  "key AAUElearnAfricaAdapter = ''aau_elearnafrica''"
  "key StMarysAdapter = ''stmarys''"
  "key ILIAdapter = ''ili''"
  "key InfonetAdapter = ''infonet''"
  "key MicrolinkAdapter = ''microlink''"
  "key EnnliteAdapter = ''ennlite''"
  "key GxCampAdapter = ''gxcamp''"
  "key LearnUpAdapter = ''learnup''"
  "key FiveMillionCodersAdapter = ''5mec''"
  "key HagerlyAdapter = ''hagerly''"
  "key HaletaAdapter = ''haleta''"
  "key ZemenTechAdapter = ''zementechnologies''"
  by (simp_all add: adapter_class_def
      LearningGovAdapter_def LearnEthiopiaAdapter_def EduHubAdapter_def ALXAdapter_def SmartEthioAdapter_def AfriworkAdapter_def KubayaAdapter_def StaffordAdapter_def ELearnETHAdapter_def AAUAdapter_def AAUElearnAfricaAdapter_def StMarysAdapter_def ILIAdapter_def InfonetAdapter_def MicrolinkAdapter_def EnnliteAdapter_def GxCampAdapter_def LearnUpAdapter_def FiveMillionCodersAdapter_def HagerlyAdapter_def HaletaAdapter_def ZemenTechAdapter_def)

lemma ADAPTERS_list:
  "ADAPTERS =
     [(''learninggov'', LearningGovAdapter), (''learnethiopia'', LearnEthiopiaAdapter),
      (''eduhubplc'', EduHubAdapter), (''alx'', ALXAdapter), (''smartethio'', SmartEthioAdapter),
      (''afriwork'', AfriworkAdapter), (''kubaya'', KubayaAdapter),
      (''staffordglobal'', StaffordAdapter), (''elearneth'', ELearnETHAdapter),
      (''aau'', AAUAdapter), (''aau_elearnafrica'', AAUElearnAfricaAdapter),
      (''stmarys'', StMarysAdapter), (''ili'', ILIAdapter), (''infonet'', InfonetAdapter),
      (''microlink'', MicrolinkAdapter), (''ennlite'', EnnliteAdapter), (''gxcamp'', GxCampAdapter),
      (''learnup'', LearnUpAdapter), (''5mec'', FiveMillionCodersAdapter),
      (''hagerly'', HagerlyAdapter), (''haleta'', HaletaAdapter),
      (''zementechnologies'', ZemenTechAdapter)]"
  by (simp add: ADAPTERS_def register_def adapter_keys)

lemma ADAPTERS_keys:
  "map fst ADAPTERS =
     [''learninggov'', ''learnethiopia'', ''eduhubplc'', ''alx'', ''smartethio'', ''afriwork'',
      ''kubaya'', ''staffordglobal'', ''elearneth'', ''aau'', ''aau_elearnafrica'', ''stmarys'',
      ''ili'', ''infonet'', ''microlink'', ''ennlite'', ''gxcamp'', ''learnup'', ''5mec'',
      ''hagerly'', ''haleta'', ''zementechnologies'']"
  by (simp add: ADAPTERS_list)

lemma resolve_nonempty: "raw \<noteq> [] \<Longrightarrow> resolve base raw \<noteq> []"
  by (simp add: resolve_def)

lemma mk_course_fields [simp]:
  "url (mk_course i t u p) = u" "provider (mk_course i t u p) = Some p"
  by (simp_all add: mk_course_def)

lemma learninggov_links_ok:
  "r \<in> set (fst (learninggov_links name base hs w)) \<Longrightarrow> provider r = Some name \<and> url r \<noteq> []"
proof (induction hs arbitrary: w)
  case Nil
  then show ?case by simp
next
  case (Cons raw rest)
  show ?case
  proof (cases "raw = []")
    case True
    then show ?thesis using Cons by simp
  next
    case False
    let ?h = "resolve base raw"
    show ?thesis
    proof (cases "re_search_i [''course'', ''training'', ''program'', ''module''] ?h")
      case no: False
      then show ?thesis using Cons False by (simp add: Let_def)
    next
      case yes: True
      obtain x w1 where sp: "soup ?h w = (x, w1)" by (cases "soup ?h w")
      show ?thesis
      proof (cases x)
        case (Inl e)
        then show ?thesis using Cons False yes sp by (simp add: Let_def)
      next
        case (Inr csoup)
        then have "r \<in> set (fst (learninggov_links name base rest w1)) \<or>
            (url r = ?h \<and> provider r = Some name)"
          using Cons.prems False yes sp by (auto simp: Let_def split: prod.splits)
        moreover have "?h \<noteq> []" by (rule resolve_nonempty [OF False])
        ultimately show ?thesis using Cons.IH [of w1] by auto
      qed
    qed
  qed
qed

lemma learninggov_iter_courses_ok:
  "learninggov_iter_courses name base w = (Inr rs, w') \<Longrightarrow> r \<in> set rs \<Longrightarrow>
   provider r = Some name \<and> url r \<noteq> []"
proof -
  assume a: "learninggov_iter_courses name base w = (Inr rs, w')" "r \<in> set rs"
  obtain x w1 where sp: "soup base w = (x, w1)" by (cases "soup base w")
  show ?thesis
  proof (cases x)
    case (Inl e)
    then show ?thesis using a sp by (simp add: learninggov_iter_courses_def)
  next
    case (Inr pg)
    then have rs: "rs = fst (learninggov_links name base
        (sort (remdups (List.map_filter href (select_a_href pg)))) w1)"
      using a(1) sp by (auto simp: learninggov_iter_courses_def Let_def split: prod.splits)
    show ?thesis using a(2) unfolding rs by (rule learninggov_links_ok)
  qed
qed

lemma learnethiopia_anchors_ok:
  "r \<in> set (fst (learnethiopia_anchors name base as seen w)) \<Longrightarrow>
   provider r = Some name \<and> url r \<noteq> []"
proof (induction as arbitrary: seen w)
  case Nil
  then show ?case by simp
next
  case (Cons a rest)
  show ?case
  proof (cases "href a")
    case None
    then show ?thesis using Cons by simp
  next
    case (Some raw)
    show ?thesis
    proof (cases "raw = []")
      case True
      then show ?thesis using Cons Some by simp
    next
      case False
      let ?h = "resolve base raw"
      show ?thesis
      proof (cases "(str_in base ?h \<and> ?h \<notin> seen) \<and>
          re_search_i [''/course/'', ''/courses/'', ''/program/''] ?h")
        case skip: False
        then show ?thesis using Cons Some False by (auto simp: Let_def split: if_splits)
      next
        case take: True
        obtain title w1 where t: "learnethiopia_title a ?h w = (title, w1)"
          by (cases "learnethiopia_title a ?h w")
        have "r \<in> set (fst (learnethiopia_anchors name base rest (insert ?h seen) w1)) \<or>
            (url r = ?h \<and> provider r = Some name)"
          using Cons.prems Some False take t by (auto simp: Let_def split: prod.splits)
        moreover have "?h \<noteq> []" by (rule resolve_nonempty [OF False])
        ultimately show ?thesis using Cons.IH by auto
      qed
    qed
  qed
qed

lemma learnethiopia_catalogs_ok:
  "r \<in> set (fst (learnethiopia_catalogs name base us seen w)) \<Longrightarrow>
   provider r = Some name \<and> url r \<noteq> []"
proof (induction us arbitrary: seen w)
  case Nil
  then show ?case by simp
next
  case (Cons u us)
  obtain x w1 where sp: "soup u w = (x, w1)" by (cases "soup u w")
  show ?case
  proof (cases x)
    case (Inl e)
    then show ?thesis using Cons sp by simp
  next
    case (Inr pg)
    obtain cs seen1 w2 where an:
      "learnethiopia_anchors name base (select_a_href pg) seen w1 = (cs, seen1, w2)"
      by (metis surj_pair)
    have "r \<in> set cs \<or> r \<in> set (fst (learnethiopia_catalogs name base us seen1 w2))"
      using Cons.prems sp Inr an by (auto simp: Let_def split: prod.splits)
    then show ?thesis
      using Cons.IH learnethiopia_anchors_ok [of r name base "select_a_href pg" seen w1] an
      by auto
  qed
qed

lemma learnethiopia_iter_courses_ok:
  "learnethiopia_iter_courses name base w = (Inr rs, w') \<Longrightarrow> r \<in> set rs \<Longrightarrow>
   provider r = Some name \<and> url r \<noteq> []"
proof -
  assume a: "learnethiopia_iter_courses name base w = (Inr rs, w')" "r \<in> set rs"
  have rs: "rs = fst (learnethiopia_catalogs name base [base, base @ ''/courses''] {} w)"
    using a(1) by (auto simp: learnethiopia_iter_courses_def Let_def split: prod.splits)
  show ?thesis using a(2) unfolding rs by (rule learnethiopia_catalogs_ok)
qed

lemma in_set_map_filter:
  "y \<in> set (List.map_filter f xs) \<longleftrightarrow> (\<exists>x\<in>set xs. f x = Some y)"
  by (induction xs) (auto split: option.splits)

lemma coursebox_courses_ok:
  assumes "r \<in> set (coursebox_courses name base pg)"
  shows "provider r = Some name \<and> url r \<noteq> []"
proof -
  have "\<exists>box\<in>set (select_courseboxes pg).
    (case href box of
        None \<Rightarrow> None
      | Some raw \<Rightarrow>
          if raw = [] then None
          else Some (mk_course (resolve base raw) (text_or (anchor_text box) (resolve base raw))
                 (resolve base raw) name)) = Some r"
    using assms unfolding coursebox_courses_def in_set_map_filter Let_def .
  then obtain box where "box \<in> set (select_courseboxes pg)" and box:
    "(case href box of
        None \<Rightarrow> None
      | Some raw \<Rightarrow>
          if raw = [] then None
          else Some (mk_course (resolve base raw) (text_or (anchor_text box) (resolve base raw))
                 (resolve base raw) name)) = Some r" ..
  then obtain raw where "raw \<noteq> []"
    "r = mk_course (resolve base raw) (text_or (anchor_text box) (resolve base raw))
           (resolve base raw) name"
    by (cases "href box") (auto split: if_splits)
  then show ?thesis by (simp add: resolve_nonempty)
qed

lemma elearneth_indexes_ok:
  "r \<in> set (fst (elearneth_indexes name base us w)) \<Longrightarrow> provider r = Some name \<and> url r \<noteq> []"
proof (induction us arbitrary: w)
  case Nil
  then show ?case by simp
next
  case (Cons u us)
  obtain x w1 where sp: "soup u w = (x, w1)" by (cases "soup u w")
  show ?case
  proof (cases x)
    case (Inl e)
    then show ?thesis using Cons sp by simp
  next
    case (Inr pg)
    have "r \<in> set (coursebox_courses name base pg) \<or>
        r \<in> set (fst (elearneth_indexes name base us w1))"
      using Cons.prems sp Inr by (auto simp: Let_def split: prod.splits)
    then show ?thesis
    proof
      assume "r \<in> set (coursebox_courses name base pg)"
      then show ?thesis by (rule coursebox_courses_ok)
    next
      assume "r \<in> set (fst (elearneth_indexes name base us w1))"
      then show ?thesis by (rule Cons.IH)
    qed
  qed
qed

lemma elearneth_iter_courses_ok:
  "elearneth_iter_courses name base w = (Inr rs, w') \<Longrightarrow> r \<in> set rs \<Longrightarrow>
   provider r = Some name \<and> url r \<noteq> []"
proof -
  assume a: "elearneth_iter_courses name base w = (Inr rs, w')" "r \<in> set rs"
  have rs: "rs = fst (elearneth_indexes name base [base @ ''/course/index.php'', base] w)"
    using a(1) by (auto simp: elearneth_iter_courses_def Let_def split: prod.splits)
  show ?thesis using a(2) unfolding rs by (rule elearneth_indexes_ok)
qed

lemma link_courses_ok:
  assumes "\<And>c. url (extra c) = url c \<and> provider (extra c) = provider c"
    and "r \<in> set (link_courses name base words extra pg)"
  shows "provider r = Some name \<and> url r \<noteq> []"
  using assms
  by (auto simp: link_courses_def in_set_map_filter Let_def resolve_nonempty
      split: option.splits if_splits)

lemma homepage_links_ok:
  assumes "\<And>c. url (extra c) = url c \<and> provider (extra c) = provider c"
    and "homepage_links words extra name base w = (Inr rs, w')" "r \<in> set rs"
  shows "provider r = Some name \<and> url r \<noteq> []"
proof -
  obtain x w1 where sp: "soup base w = (x, w1)" by (cases "soup base w")
  have "rs = [] \<or> (\<exists>pg. rs = link_courses name base words extra pg)"
    using assms(2) sp by (cases x) (auto simp: homepage_links_def)
  then show ?thesis using assms(3) link_courses_ok [OF assms(1)] by auto
qed

lemma try_homepage_links_ok:
  assumes "\<And>c. url (extra c) = url c \<and> provider (extra c) = provider c"
    and "try_homepage_links words extra name base w = (Inr rs, w')" "r \<in> set rs"
  shows "provider r = Some name \<and> url r \<noteq> []"
proof -
  obtain x w1 where sp: "soup base w = (x, w1)" by (cases "soup base w")
  have "rs = [] \<or> (\<exists>pg. rs = link_courses name base words extra pg)"
    using assms(2) sp by (cases x) (auto simp: try_homepage_links_def)
  then show ?thesis using assms(3) link_courses_ok [OF assms(1)] by auto
qed

lemma no_courses_ok:
  "no_courses name base w = (Inr rs, w') \<Longrightarrow> r \<in> set rs \<Longrightarrow> provider r = Some name \<and> url r \<noteq> []"
  by (simp add: no_courses_def)

lemmas adapter_defs =
  LearningGovAdapter_def LearnEthiopiaAdapter_def EduHubAdapter_def ALXAdapter_def
  SmartEthioAdapter_def AfriworkAdapter_def KubayaAdapter_def StaffordAdapter_def
  ELearnETHAdapter_def AAUAdapter_def AAUElearnAfricaAdapter_def StMarysAdapter_def
  ILIAdapter_def InfonetAdapter_def MicrolinkAdapter_def EnnliteAdapter_def
  GxCampAdapter_def LearnUpAdapter_def FiveMillionCodersAdapter_def HagerlyAdapter_def
  HaletaAdapter_def ZemenTechAdapter_def

lemma adapter_class_sel [simp]:
  "iter_courses (adapter_class k name base m) = m name base"
  "display_name (adapter_class k name base m) = name"
  "base_url (adapter_class k name base m) = base"
  "key (adapter_class k name base m) = k"
  "is_allowed (adapter_class k name base m) = True"
  by (simp_all add: adapter_class_def)

lemma method_ok:
  assumes "a = adapter_class k name base m"
    and "\<And>w rs w' r. m name base w = (Inr rs, w') \<Longrightarrow> r \<in> set rs \<Longrightarrow>
           provider r = Some name \<and> url r \<noteq> []"
  shows "\<forall>w rs w' r. iter_courses a w = (Inr rs, w') \<longrightarrow> r \<in> set rs \<longrightarrow>
           provider r = Some (display_name a) \<and> url r \<noteq> []"
  using assms by simp

lemma LearningGovAdapter_ok:
  "\<forall>w rs w' r. iter_courses LearningGovAdapter w = (Inr rs, w') \<longrightarrow> r \<in> set rs \<longrightarrow>
     provider r = Some (display_name LearningGovAdapter) \<and> url r \<noteq> []"
  by (rule method_ok [OF LearningGovAdapter_def]) (rule learninggov_iter_courses_ok)

lemma LearnEthiopiaAdapter_ok:
  "\<forall>w rs w' r. iter_courses LearnEthiopiaAdapter w = (Inr rs, w') \<longrightarrow> r \<in> set rs \<longrightarrow>
     provider r = Some (display_name LearnEthiopiaAdapter) \<and> url r \<noteq> []"
  by (rule method_ok [OF LearnEthiopiaAdapter_def]) (rule learnethiopia_iter_courses_ok)

lemma EduHubAdapter_ok:
  "\<forall>w rs w' r. iter_courses EduHubAdapter w = (Inr rs, w') \<longrightarrow> r \<in> set rs \<longrightarrow>
     provider r = Some (display_name EduHubAdapter) \<and> url r \<noteq> []"
  by (rule method_ok [OF EduHubAdapter_def]) (rule homepage_links_ok, simp_all)

lemma ALXAdapter_ok:
  "\<forall>w rs w' r. iter_courses ALXAdapter w = (Inr rs, w') \<longrightarrow> r \<in> set rs \<longrightarrow>
     provider r = Some (display_name ALXAdapter) \<and> url r \<noteq> []"
  by (rule method_ok [OF ALXAdapter_def]) (rule homepage_links_ok, simp_all)

lemma SmartEthioAdapter_ok:
  "\<forall>w rs w' r. iter_courses SmartEthioAdapter w = (Inr rs, w') \<longrightarrow> r \<in> set rs \<longrightarrow>
     provider r = Some (display_name SmartEthioAdapter) \<and> url r \<noteq> []"
  by (rule method_ok [OF SmartEthioAdapter_def]) (rule try_homepage_links_ok, simp_all)

lemma AfriworkAdapter_ok:
  "\<forall>w rs w' r. iter_courses AfriworkAdapter w = (Inr rs, w') \<longrightarrow> r \<in> set rs \<longrightarrow>
     provider r = Some (display_name AfriworkAdapter) \<and> url r \<noteq> []"
  by (rule method_ok [OF AfriworkAdapter_def]) (rule try_homepage_links_ok, simp_all)

lemma KubayaAdapter_ok:
  "\<forall>w rs w' r. iter_courses KubayaAdapter w = (Inr rs, w') \<longrightarrow> r \<in> set rs \<longrightarrow>
     provider r = Some (display_name KubayaAdapter) \<and> url r \<noteq> []"
  by (rule method_ok [OF KubayaAdapter_def]) (rule homepage_links_ok, simp_all)

lemma StaffordAdapter_ok:
  "\<forall>w rs w' r. iter_courses StaffordAdapter w = (Inr rs, w') \<longrightarrow> r \<in> set rs \<longrightarrow>
     provider r = Some (display_name StaffordAdapter) \<and> url r \<noteq> []"
  by (rule method_ok [OF StaffordAdapter_def]) (rule homepage_links_ok, simp_all)

lemma ELearnETHAdapter_ok:
  "\<forall>w rs w' r. iter_courses ELearnETHAdapter w = (Inr rs, w') \<longrightarrow> r \<in> set rs \<longrightarrow>
     provider r = Some (display_name ELearnETHAdapter) \<and> url r \<noteq> []"
  by (rule method_ok [OF ELearnETHAdapter_def]) (rule elearneth_iter_courses_ok)

lemma AAUAdapter_ok:
  "\<forall>w rs w' r. iter_courses AAUAdapter w = (Inr rs, w') \<longrightarrow> r \<in> set rs \<longrightarrow>
     provider r = Some (display_name AAUAdapter) \<and> url r \<noteq> []"
  by (rule method_ok [OF AAUAdapter_def]) (rule try_homepage_links_ok, simp_all)

lemma AAUElearnAfricaAdapter_ok:
  "\<forall>w rs w' r. iter_courses AAUElearnAfricaAdapter w = (Inr rs, w') \<longrightarrow> r \<in> set rs \<longrightarrow>
     provider r = Some (display_name AAUElearnAfricaAdapter) \<and> url r \<noteq> []"
  by (rule method_ok [OF AAUElearnAfricaAdapter_def]) (rule try_homepage_links_ok, simp_all)

lemma StMarysAdapter_ok:
  "\<forall>w rs w' r. iter_courses StMarysAdapter w = (Inr rs, w') \<longrightarrow> r \<in> set rs \<longrightarrow>
     provider r = Some (display_name StMarysAdapter) \<and> url r \<noteq> []"
  by (rule method_ok [OF StMarysAdapter_def]) (rule try_homepage_links_ok, simp_all)

lemma ILIAdapter_ok:
  "\<forall>w rs w' r. iter_courses ILIAdapter w = (Inr rs, w') \<longrightarrow> r \<in> set rs \<longrightarrow>
     provider r = Some (display_name ILIAdapter) \<and> url r \<noteq> []"
  by (rule method_ok [OF ILIAdapter_def]) (rule try_homepage_links_ok, simp_all)

lemma InfonetAdapter_ok:
  "\<forall>w rs w' r. iter_courses InfonetAdapter w = (Inr rs, w') \<longrightarrow> r \<in> set rs \<longrightarrow>
     provider r = Some (display_name InfonetAdapter) \<and> url r \<noteq> []"
  by (rule method_ok [OF InfonetAdapter_def]) (rule try_homepage_links_ok, simp_all)

lemma MicrolinkAdapter_ok:
  "\<forall>w rs w' r. iter_courses MicrolinkAdapter w = (Inr rs, w') \<longrightarrow> r \<in> set rs \<longrightarrow>
     provider r = Some (display_name MicrolinkAdapter) \<and> url r \<noteq> []"
  by (rule method_ok [OF MicrolinkAdapter_def]) (rule try_homepage_links_ok, simp_all)

lemma EnnliteAdapter_ok:
  "\<forall>w rs w' r. iter_courses EnnliteAdapter w = (Inr rs, w') \<longrightarrow> r \<in> set rs \<longrightarrow>
     provider r = Some (display_name EnnliteAdapter) \<and> url r \<noteq> []"
  by (rule method_ok [OF EnnliteAdapter_def]) (rule try_homepage_links_ok, simp_all)

lemma GxCampAdapter_ok:
  "\<forall>w rs w' r. iter_courses GxCampAdapter w = (Inr rs, w') \<longrightarrow> r \<in> set rs \<longrightarrow>
     provider r = Some (display_name GxCampAdapter) \<and> url r \<noteq> []"
  by (rule method_ok [OF GxCampAdapter_def]) (rule try_homepage_links_ok, simp_all)

lemma LearnUpAdapter_ok:
  "\<forall>w rs w' r. iter_courses LearnUpAdapter w = (Inr rs, w') \<longrightarrow> r \<in> set rs \<longrightarrow>
     provider r = Some (display_name LearnUpAdapter) \<and> url r \<noteq> []"
  by (rule method_ok [OF LearnUpAdapter_def]) (rule no_courses_ok)

lemma FiveMillionCodersAdapter_ok:
  "\<forall>w rs w' r. iter_courses FiveMillionCodersAdapter w = (Inr rs, w') \<longrightarrow> r \<in> set rs \<longrightarrow>
     provider r = Some (display_name FiveMillionCodersAdapter) \<and> url r \<noteq> []"
  by (rule method_ok [OF FiveMillionCodersAdapter_def]) (rule no_courses_ok)

lemma HagerlyAdapter_ok:
  "\<forall>w rs w' r. iter_courses HagerlyAdapter w = (Inr rs, w') \<longrightarrow> r \<in> set rs \<longrightarrow>
     provider r = Some (display_name HagerlyAdapter) \<and> url r \<noteq> []"
  by (rule method_ok [OF HagerlyAdapter_def]) (rule no_courses_ok)

lemma HaletaAdapter_ok:
  "\<forall>w rs w' r. iter_courses HaletaAdapter w = (Inr rs, w') \<longrightarrow> r \<in> set rs \<longrightarrow>
     provider r = Some (display_name HaletaAdapter) \<and> url r \<noteq> []"
  by (rule method_ok [OF HaletaAdapter_def]) (rule no_courses_ok)

lemma ZemenTechAdapter_ok:
  "\<forall>w rs w' r. iter_courses ZemenTechAdapter w = (Inr rs, w') \<longrightarrow> r \<in> set rs \<longrightarrow>
     provider r = Some (display_name ZemenTechAdapter) \<and> url r \<noteq> []"
  by (rule method_ok [OF ZemenTechAdapter_def]) (rule no_courses_ok)

lemma all_adapters_ok:
  "list_all (\<lambda>a. \<forall>w rs w' r. iter_courses a w = (Inr rs, w') \<longrightarrow> r \<in> set rs \<longrightarrow>
     provider r = Some (display_name a) \<and> url r \<noteq> []) (map snd ADAPTERS)"
  unfolding ADAPTERS_list list.map snd_conv list_all_Cons_iff list_all_Nil_iff
  by (intro conjI LearningGovAdapter_ok LearnEthiopiaAdapter_ok EduHubAdapter_ok ALXAdapter_ok SmartEthioAdapter_ok AfriworkAdapter_ok KubayaAdapter_ok StaffordAdapter_ok ELearnETHAdapter_ok AAUAdapter_ok AAUElearnAfricaAdapter_ok StMarysAdapter_ok ILIAdapter_ok InfonetAdapter_ok MicrolinkAdapter_ok EnnliteAdapter_ok GxCampAdapter_ok LearnUpAdapter_ok FiveMillionCodersAdapter_ok HagerlyAdapter_ok HaletaAdapter_ok ZemenTechAdapter_ok TrueI)

text \<open>
  Claim C3. Every record that \<^verbatim>\<open>iter_courses\<close> of a registered adapter yields has the
  display name of that adapter as its provider, and a URL that is not empty.
\<close>

theorem adapters_provider_url:
  assumes "(k, a) \<in> set ADAPTERS" "iter_courses a w = (Inr rs, w')" "r \<in> set rs"
  shows "provider r = Some (display_name a) \<and> url r \<noteq> []"
proof -
  have "a \<in> set (map snd ADAPTERS)" using assms(1) by (metis in_set_zipE zip_map_fst_snd)
  then have "\<forall>w rs w' r. iter_courses a w = (Inr rs, w') \<longrightarrow> r \<in> set rs \<longrightarrow>
     provider r = Some (display_name a) \<and> url r \<noteq> []"
    using all_adapters_ok unfolding list_all_iff by blast
  then show ?thesis using assms(2,3) by blast
qed


theorem adapters_provider_url_witness:
  "(''smartethio'', SmartEthioAdapter) \<in> set ADAPTERS \<and>
   fst (iter_courses SmartEthioAdapter school_world) = Inr [grade_course] \<and>
   provider grade_course = Some (display_name SmartEthioAdapter) \<and> url grade_course \<noteq> []"
proof -
  have 1: "(''smartethio'', SmartEthioAdapter) \<in> set ADAPTERS" by (simp add: ADAPTERS_list)
  have f: "fst (iter_courses SmartEthioAdapter school_world) = Inr [grade_course]" by code_simp
  then have 2: "iter_courses SmartEthioAdapter school_world =
      (Inr [grade_course], snd (iter_courses SmartEthioAdapter school_world))"
    by (metis prod.collapse)
  show ?thesis using adapters_provider_url [OF 1 2, of grade_course] 1 f by simp
qed

section \<open>Properties of the Learning.gov.et adapter\<close>

lemma learninggov_links_sorted:
  "sorted hs \<Longrightarrow> distinct hs \<Longrightarrow>
   \<exists>ks. set ks \<subseteq> set hs \<and> sorted ks \<and> distinct ks \<and>
        map url (fst (learninggov_links name base hs w)) = map (resolve base) ks"
proof (induction hs arbitrary: w)
  case Nil
  then show ?case by simp
next
  case (Cons raw rest)
  have sr: "sorted rest" "distinct rest" "raw \<notin> set rest" "\<forall>x\<in>set rest. raw \<le> x"
    using Cons.prems by auto
  have skip: "\<exists>ks. set ks \<subseteq> set (raw # rest) \<and> sorted ks \<and> distinct ks \<and>
        map url (fst (learninggov_links name base rest w1)) = map (resolve base) ks" for w1
    using Cons.IH [OF sr(1,2), of w1] by auto
  have take: "\<exists>ks. set ks \<subseteq> set (raw # rest) \<and> sorted ks \<and> distinct ks \<and>
        resolve base raw # map url (fst (learninggov_links name base rest w1)) =
        map (resolve base) ks" for w1
  proof -
    obtain ks where ks: "set ks \<subseteq> set rest" "sorted ks" "distinct ks"
      "map url (fst (learninggov_links name base rest w1)) = map (resolve base) ks"
      using Cons.IH [OF sr(1,2), of w1] by auto
    have a: "set (raw # ks) \<subseteq> set (raw # rest)" using ks(1) by auto
    have b: "sorted (raw # ks)" using ks(1,2) sr(4) by auto
    have c: "distinct (raw # ks)" using ks(1,3) sr(3) by auto
    have d: "resolve base raw # map url (fst (learninggov_links name base rest w1)) =
        map (resolve base) (raw # ks)" using ks(4) by simp
    show ?thesis by (rule exI [of _ "raw # ks"]) (intro conjI a b c d)
  qed
  show ?case
  proof (cases "raw = []")
    case True
    then show ?thesis using skip [of w] by simp
  next
    case False
    let ?h = "resolve base raw"
    show ?thesis
    proof (cases "re_search_i [''course'', ''training'', ''program'', ''module''] ?h")
      case no: False
      then show ?thesis using skip [of w] False by (simp add: Let_def)
    next
      case yes: True
      obtain x w1 where sp: "soup ?h w = (x, w1)" by (cases "soup ?h w")
      show ?thesis
      proof (cases x)
        case (Inl e)
        then show ?thesis using skip [of w1] False yes sp by (simp add: Let_def)
      next
        case (Inr csoup)
        have "map url (fst (learninggov_links name base (raw # rest) w)) =
            ?h # map url (fst (learninggov_links name base rest w1))"
          using False yes sp Inr by (simp add: Let_def split: prod.splits)
        then show ?thesis using take [of w1] by simp
      qed
    qed
  qed
qed

text \<open>
  Claim C10. When the homepage is fetched, the URLs of the records that
  \<^verbatim>\<open>LearningGovAdapter.iter_courses\<close> yields are, in order, the resolved forms of a list
  of raw hrefs of the page that is strictly ascending in the lexicographic order of the
  strings: each distinct raw href gives at most one record, and the records appear in the
  ascending order of the raw hrefs.
\<close>

theorem learninggov_one_record_per_href:
  assumes "soup (base_url LearningGovAdapter) w = (Inr pg, w1)"
    and "iter_courses LearningGovAdapter w = (Inr rs, w')"
  shows "\<exists>ks. sorted ks \<and> distinct ks \<and>
           set ks \<subseteq> {h. \<exists>a\<in>set (anchors pg). href a = Some h} \<and>
           map url rs = map (resolve (base_url LearningGovAdapter)) ks"
proof -
  let ?base = "base_url LearningGovAdapter"
  let ?name = "display_name LearningGovAdapter"
  let ?hs = "sort (remdups (List.map_filter href (select_a_href pg)))"
  have it: "iter_courses LearningGovAdapter = learninggov_iter_courses ?name ?base"
    by (simp add: LearningGovAdapter_def)
  have rs: "rs = fst (learninggov_links ?name ?base ?hs w1)"
    using assms unfolding it
    by (auto simp: learninggov_iter_courses_def Let_def split: prod.splits)
  obtain ks where ks: "set ks \<subseteq> set ?hs" "sorted ks" "distinct ks"
    "map url (fst (learninggov_links ?name ?base ?hs w1)) = map (resolve ?base) ks"
    using learninggov_links_sorted [of ?hs ?name ?base w1] by auto
  have "set ?hs \<subseteq> {h. \<exists>a\<in>set (anchors pg). href a = Some h}"
    by (auto simp: in_set_map_filter select_a_href_def)
  then have sub: "set ks \<subseteq> {h. \<exists>a\<in>set (anchors pg). href a = Some h}"
    using ks(1) by (rule order_trans [rotated])
  have eq: "map url rs = map (resolve ?base) ks" unfolding rs by (rule ks(4))
  show ?thesis by (rule exI [of _ ks]) (intro conjI ks(2) ks(3) sub eq)
qed

lemma campus_run:
  "fst (soup ''https://learning.gov.et'' campus_world) = Inr home_page"
  "fst (iter_courses LearningGovAdapter campus_world) = Inr [course_a, course_b]"
  by code_simp+

theorem learninggov_one_record_per_href_witness:
  "fst (soup (base_url LearningGovAdapter) campus_world) = Inr home_page \<and>
   fst (iter_courses LearningGovAdapter campus_world) = Inr [course_a, course_b] \<and>
   (\<exists>ks. sorted ks \<and> distinct ks \<and>
      set ks \<subseteq> {h. \<exists>a\<in>set (anchors home_page). href a = Some h} \<and>
      map url [course_a, course_b] = map (resolve (base_url LearningGovAdapter)) ks)"
proof -
  have b: "base_url LearningGovAdapter = ''https://learning.gov.et''"
    by (simp add: LearningGovAdapter_def)
  have 1: "soup (base_url LearningGovAdapter) campus_world =
      (Inr home_page, snd (soup (base_url LearningGovAdapter) campus_world))"
    using campus_run(1) unfolding b by (metis prod.collapse)
  have 2: "iter_courses LearningGovAdapter campus_world =
      (Inr [course_a, course_b], snd (iter_courses LearningGovAdapter campus_world))"
    using campus_run(2) by (metis prod.collapse)
  show ?thesis
    using learninggov_one_record_per_href [OF 1 2] campus_run unfolding b by simp
qed

section \<open>Failure of the base page\<close>

lemma soup_fails: "fst (get u w) = Inl e \<Longrightarrow> fst (soup u w) = Inl e"
  by (cases "get u w") (auto simp: soup_def)






























section \<open>Properties of the command line\<close>

lemma dict_get_None: "dict_get reg k = None \<longleftrightarrow> k \<notin> set (map fst reg)"
  by (induction reg) (auto split: if_splits)

lemma foldl_print:
  "foldl (\<lambda>w ka. if fst ka = ''base'' then w else print (site_line ka) w) w reg =
   w\<lparr>printed := printed w @ map site_line (filter (\<lambda>ka. fst ka \<noteq> ''base'') reg)\<rparr>"
  by (induction reg arbitrary: w) (simp_all add: print_def)

text \<open>
  Claim C4, as amended. Without \<^verbatim>\<open>--list-sites\<close>, an invocation that gives both a
  non-empty \<^verbatim>\<open>--site\<close> and \<^verbatim>\<open>--all\<close>, or neither of them, or a non-empty
  \<^verbatim>\<open>--site\<close> that is no key of the registry, ends with \<^verbatim>\<open>SystemExit\<close> and a
  non-empty message, so with exit status 1, in the world it started in: no request was
  made and no file written. With \<^verbatim>\<open>--list-sites\<close>, whatever the other arguments are,
  \<^verbatim>\<open>main\<close> prints the heading and one line per entry of the registry other than
  \<^verbatim>\<open>"base"\<close>, changes nothing else, and exits with status 0.
\<close>

theorem main_fatal:
  "(\<not> list_sites a \<longrightarrow> fatal a reg \<longrightarrow>
      (\<exists>msg. msg \<noteq> [] \<and> main a reg w = (Inl (SystemExit msg), w) \<and>
         exit_status (fst (main a reg w)) = 1)) \<and>
   (list_sites a \<longrightarrow>
      main a reg w =
        (Inr (), w\<lparr>printed := printed w @ ''Available site keys:'' #
                     map site_line (filter (\<lambda>ka. fst ka \<noteq> ''base'') reg)\<rparr>) \<and>
      exit_status (fst (main a reg w)) = 0)"
proof (intro conjI impI)
  assume "\<not> list_sites a" "fatal a reg"
  then show "\<exists>msg. msg \<noteq> [] \<and> main a reg w = (Inl (SystemExit msg), w) \<and>
         exit_status (fst (main a reg w)) = 1"
    by (auto simp: fatal_def main_def run_one_def exit_status_def given_def)
next
  assume "list_sites a"
  then show "main a reg w =
        (Inr (), w\<lparr>printed := printed w @ ''Available site keys:'' #
                     map site_line (filter (\<lambda>ka. fst ka \<noteq> ''base'') reg)\<rparr>)"
    by (simp add: main_def foldl_print print_def)
next
  assume "list_sites a"
  then show "exit_status (fst (main a reg w)) = 0"
    by (simp add: main_def exit_status_def)
qed

theorem main_fatal_witness:
  "(\<exists>msg. msg \<noteq> [] \<and> main both_args ADAPTERS dead_world = (Inl (SystemExit msg), dead_world)) \<and>
   (\<exists>msg. msg \<noteq> [] \<and> main neither_args ADAPTERS dead_world = (Inl (SystemExit msg), dead_world)) \<and>
   (\<exists>msg. msg \<noteq> [] \<and> main unknown_args ADAPTERS dead_world = (Inl (SystemExit msg), dead_world)) \<and>
   requested (snd (main listing_args ADAPTERS dead_world)) = [] \<and>
   files (snd (main listing_args ADAPTERS dead_world)) = Map.empty \<and>
   exit_status (fst (main listing_args ADAPTERS dead_world)) = 0"
proof -
  have u: "dict_get ADAPTERS ''udemy'' = None"
    unfolding dict_get_None ADAPTERS_keys by simp
  have 1: "\<exists>msg. msg \<noteq> [] \<and> main both_args ADAPTERS dead_world = (Inl (SystemExit msg), dead_world)"
    using main_fatal [of both_args ADAPTERS dead_world]
    by (auto simp: both_args_def given_def fatal_def)
  have 2: "\<exists>msg. msg \<noteq> [] \<and> main neither_args ADAPTERS dead_world = (Inl (SystemExit msg), dead_world)"
    using main_fatal [of neither_args ADAPTERS dead_world]
    by (auto simp: neither_args_def given_def fatal_def)
  have 3: "\<exists>msg. msg \<noteq> [] \<and> main unknown_args ADAPTERS dead_world = (Inl (SystemExit msg), dead_world)"
    using main_fatal [of unknown_args ADAPTERS dead_world] u
    by (auto simp: unknown_args_def given_def fatal_def)
  have 4: "requested (snd (main listing_args ADAPTERS dead_world)) = [] \<and>
      files (snd (main listing_args ADAPTERS dead_world)) = Map.empty \<and>
      exit_status (fst (main listing_args ADAPTERS dead_world)) = 0"
  proof -
    have l: "list_sites listing_args" by (simp add: listing_args_def)
    have m: "main listing_args ADAPTERS dead_world =
        (Inr (), dead_world\<lparr>printed := printed dead_world @ ''Available site keys:'' #
                     map site_line (filter (\<lambda>ka. fst ka \<noteq> ''base'') ADAPTERS)\<rparr>)"
      using main_fatal [of listing_args ADAPTERS dead_world] l by blast
    show ?thesis unfolding m by (simp add: dead_world_def world_of_def exit_status_def)
  qed
  show ?thesis using 1 2 3 4 by (intro conjI) simp_all
qed

text \<open>
  The claim as it stands fails in two ways. With \<^verbatim>\<open>--list-sites\<close> given too,
  \<^verbatim>\<open>main\<close> lists the keys and returns, whatever \<^verbatim>\<open>--site\<close> and \<^verbatim>\<open>--all\<close>
  are. With an empty \<^verbatim>\<open>--site\<close> value beside \<^verbatim>\<open>--all\<close>, \<^verbatim>\<open>main\<close> takes the
  site as absent and runs all the adapters.
\<close>

theorem main_list_sites_counterexample:
  "site listing_args \<noteq> None \<and> all_sites listing_args \<and>
   exit_status (fst (main listing_args ADAPTERS dead_world)) = 0 \<and>
   site empty_site_args \<noteq> None \<and> all_sites empty_site_args \<and>
   exit_status (fst (main empty_site_args ADAPTERS dead_world)) = 0"
proof -
  have "exit_status (fst (main empty_site_args ADAPTERS dead_world)) = 0" by code_simp
  then show ?thesis
    by (simp add: listing_args_def empty_site_args_def main_def exit_status_def)
qed

section \<open>Properties of the policy gate\<close>

lemma run_all_loop_with_policy:
  "run_all_loop (with_policy g reg) acc lg w = run_all_loop reg acc lg w"
proof (induction reg arbitrary: acc lg w)
  case Nil
  then show ?case by (simp add: with_policy_def)
next
  case (Cons ka reg)
  obtain k a where ka: "ka = (k, a)" by (cases ka)
  have step: "with_policy g (ka # reg) = (k, a\<lparr>is_allowed := g (k, a)\<rparr>) # with_policy g reg"
    by (simp add: with_policy_def ka)
  show ?case unfolding step using Cons.IH
    by (simp add: ka split: prod.splits sum.splits)
qed

lemma dict_get_with_policy:
  "dict_get (with_policy g reg) k = map_option (\<lambda>a. a\<lparr>is_allowed := g (k, a)\<rparr>) (dict_get reg k)"
  by (induction reg) (auto simp: with_policy_def)

lemma ADAPTERS_allowed: "list_all (\<lambda>ka. is_allowed (snd ka)) ADAPTERS"
  unfolding ADAPTERS_list by (simp add: adapter_defs)

text \<open>
  Claim C6, as amended. Every registered adapter answers \<^verbatim>\<open>True\<close> to
  \<^verbatim>\<open>is_allowed\<close>, and the run controller does not consult the answer: whatever the
  adapters of a registry answer, \<^verbatim>\<open>run_all\<close> and \<^verbatim>\<open>run_one\<close> return the same
  records and the same log and leave the same world. No adapter is skipped for its answer and
  no skipped source is recorded.
\<close>

theorem run_controller_ignores_is_allowed:
  "(\<forall>ka\<in>set ADAPTERS. is_allowed (snd ka)) \<and>
   run_all (with_policy g reg) w = run_all reg w \<and>
   run_one k (with_policy g reg) w = run_one k reg w"
proof -
  have 1: "\<forall>ka\<in>set ADAPTERS. is_allowed (snd ka)"
    using ADAPTERS_allowed by (simp add: list_all_iff)
  have 2: "run_all (with_policy g reg) w = run_all reg w"
    by (simp add: run_all_def run_all_loop_with_policy)
  have 3: "run_one k (with_policy g reg) w = run_one k reg w"
    by (cases "dict_get reg k") (simp_all add: run_one_def dict_get_with_policy)
  show ?thesis by (intro conjI 1 2 3)
qed

theorem run_controller_ignores_is_allowed_witness:
  "(''smartethio'', SmartEthioAdapter) \<in> set ADAPTERS \<and> is_allowed SmartEthioAdapter \<and>
   run_all (with_policy (\<lambda>ka. False) registry_abc) dead_world =
     ([course_a1, course_a2], [''B: AdapterError''], dead_world)"
proof -
  have m: "(''smartethio'', SmartEthioAdapter) \<in> set ADAPTERS" by (simp add: ADAPTERS_list)
  have t: "(\<forall>ka\<in>set ADAPTERS. is_allowed (snd ka)) \<and>
      run_all (with_policy (\<lambda>ka. False) registry_abc) dead_world = run_all registry_abc dead_world"
    using run_controller_ignores_is_allowed [of "\<lambda>ka. False" registry_abc dead_world] by simp
  then have "is_allowed SmartEthioAdapter" using m by fastforce
  moreover have "run_all registry_abc dead_world =
      ([course_a1, course_a2], [''B: AdapterError''], dead_world)"
    by (simp add: run_all_def registry_abc_def register_def fake_adapter_def)
  ultimately show ?thesis using m t by simp
qed

text \<open>
  The claim as it stands fails on a registry holding an adapter that answers
  \<^verbatim>\<open>False\<close>: both \<^verbatim>\<open>run_all\<close> and \<^verbatim>\<open>run_one\<close> invoke its
  \<^verbatim>\<open>iter_courses\<close> and return its record.
\<close>

theorem run_all_is_allowed_counterexample:
  "\<not> is_allowed (fake_adapter ''blocked'' ''Blocked'' False (Inr [course_a1])) \<and>
   run_all registry_blocked dead_world = ([course_a1], [], dead_world) \<and>
   run_one ''blocked'' registry_blocked dead_world = (Inr [course_a1], dead_world)"
  by (simp add: run_all_def run_one_def registry_blocked_def register_def fake_adapter_def)

section \<open>Properties of the sink\<close>

lemma dirname_bare: "dirname ''courses.csv'' = []"
  by (simp add: dirname_def)

text \<open>
  Claim C9 does not hold of the code: for a path with no directory part,
  \<^verbatim>\<open>os.path.dirname\<close> returns the empty string, \<^verbatim>\<open>os.makedirs\<close> raises
  \<^verbatim>\<open>FileNotFoundError\<close> on it, and \<^verbatim>\<open>write_csv\<close> ends there: nothing is written.
\<close>

theorem write_csv_bare_filename:
  "\<exists>m. write_csv rows ''courses.csv'' w = (Inl (FileNotFoundError m), w)"
  by (simp add: write_csv_def dirname_bare makedirs_def)



subsection \<open>Reading back what the writer wrote\<close>

lemma step_plain:
  assumes "\<not> special c" "pstate ps \<in> {START_RECORD, START_FIELD, IN_FIELD}"
  shows "parse_process_char ps (Ch c) = Some (parse_add_char IN_FIELD c ps)"
  using assms by (auto simp: parse_process_char_def start_field_def special_def)

lemma feed_plain_char:
  assumes "\<not> special c" "pstate ps \<in> {START_RECORD, START_FIELD, IN_FIELD}" "rest \<noteq> []"
  shows "feed ps (c # rest) = feed (parse_add_char IN_FIELD c ps) rest"
proof -
  have "\<not> line_end c rest" using assms(1,3) by (simp add: line_end_def special_def)
  then show ?thesis using step_plain [OF assms(1,2)] by (simp add: feed.simps(2))
qed

lemma feed_plain:
  assumes "\<not> list_ex special s" "s \<noteq> []" "rest \<noteq> []"
    "pstate ps \<in> {START_RECORD, START_FIELD, IN_FIELD}"
  shows "feed ps (s @ rest) = feed (ps\<lparr>cur_field := cur_field ps @ s, pstate := IN_FIELD\<rparr>) rest"
  using assms
proof (induction s arbitrary: ps)
  case Nil
  then show ?case by simp
next
  case (Cons c s)
  have c: "\<not> special c" and s: "\<not> list_ex special s" using Cons.prems(1) by simp_all
  show ?case
  proof (cases "s = []")
    case True
    then show ?thesis
      using feed_plain_char [OF c Cons.prems(4) Cons.prems(3)] by (simp add: parse_add_char_def)
  next
    case False
    have "feed ps ((c # s) @ rest) = feed (parse_add_char IN_FIELD c ps) (s @ rest)"
      using feed_plain_char [OF c Cons.prems(4), of "s @ rest"] False by simp
    also have "\<dots> = feed ((parse_add_char IN_FIELD c ps)
        \<lparr>cur_field := cur_field (parse_add_char IN_FIELD c ps) @ s, pstate := IN_FIELD\<rparr>) rest"
      by (rule Cons.IH [OF s False Cons.prems(3)]) (simp add: parse_add_char_def)
    finally show ?thesis by (simp add: parse_add_char_def)
  qed
qed

lemma feed_quoted_char:
  assumes "pstate ps = IN_QUOTED_FIELD" "c \<noteq> DQ"
  shows "feed ps (c # rest) = feed (parse_add_char IN_QUOTED_FIELD c ps) rest"
  using assms
  by (simp add: feed.simps(2) parse_process_char_def parse_add_char_def next_record_def)

lemma feed_quoted_quote:
  assumes "pstate ps = IN_QUOTED_FIELD" "rest \<noteq> []"
  shows "feed ps (DQ # DQ # rest) = feed (parse_add_char IN_QUOTED_FIELD DQ ps) rest"
  using assms
  by (simp add: feed.simps(2) parse_process_char_def parse_add_char_def line_end_def)

lemma doubled_simps [simp]:
  "doubled [] = []"
  "doubled (c # s) = (if c = DQ then [DQ, DQ] else [c]) @ doubled s"
  by (simp_all add: doubled_def)

lemma feed_doubled:
  assumes "pstate ps = IN_QUOTED_FIELD" "tail \<noteq> []"
  shows "feed ps (doubled s @ DQ # tail) =
         feed (ps\<lparr>cur_field := cur_field ps @ s, pstate := QUOTE_IN_QUOTED_FIELD\<rparr>) tail"
  using assms
proof (induction s arbitrary: ps)
  case Nil
  then show ?case
    by (simp add: feed.simps(2) parse_process_char_def line_end_def)
next
  case (Cons c s)
  have st: "pstate (parse_add_char IN_QUOTED_FIELD c ps) = IN_QUOTED_FIELD"
    by (simp add: parse_add_char_def)
  have "feed ps (doubled (c # s) @ DQ # tail) =
      feed (parse_add_char IN_QUOTED_FIELD c ps) (doubled s @ DQ # tail)"
  proof (cases "c = DQ")
    case True
    then show ?thesis
      using feed_quoted_quote [OF Cons.prems(1), of "doubled s @ DQ # tail"] by simp
  next
    case False
    then show ?thesis
      using feed_quoted_char [OF Cons.prems(1) False, of "doubled s @ DQ # tail"] by simp
  qed
  also have "\<dots> = feed ((parse_add_char IN_QUOTED_FIELD c ps)
      \<lparr>cur_field := cur_field (parse_add_char IN_QUOTED_FIELD c ps) @ s,
        pstate := QUOTE_IN_QUOTED_FIELD\<rparr>) tail"
    by (rule Cons.IH [OF st Cons.prems(2)])
  finally show ?case by (simp add: parse_add_char_def)
qed

text \<open>After the content of a field the reader holds the field and is in a state in which a
  comma or a line break ends the field.\<close>

lemma feed_field:
  assumes "pstate ps \<in> {START_RECORD, START_FIELD}" "cur_field ps = []" "tail \<noteq> []"
    "s = [] \<longrightarrow> pstate ps = START_FIELD"
  shows "\<exists>st\<in>{START_FIELD, IN_FIELD, QUOTE_IN_QUOTED_FIELD}.
           feed ps (quote_field s @ tail) = feed (ps\<lparr>cur_field := s, pstate := st\<rparr>) tail"
proof (cases "list_ex special s")
  case True
  have open_q: "feed ps (DQ # doubled s @ DQ # tail) =
      feed (ps\<lparr>pstate := IN_QUOTED_FIELD\<rparr>) (doubled s @ DQ # tail)"
    using assms(1) by (auto simp: feed.simps(2) parse_process_char_def start_field_def line_end_def)
  have "feed (ps\<lparr>pstate := IN_QUOTED_FIELD\<rparr>) (doubled s @ DQ # tail) =
      feed (ps\<lparr>pstate := IN_QUOTED_FIELD\<rparr>
        \<lparr>cur_field := cur_field (ps\<lparr>pstate := IN_QUOTED_FIELD\<rparr>) @ s,
          pstate := QUOTE_IN_QUOTED_FIELD\<rparr>) tail"
    by (rule feed_doubled) (simp_all add: assms(3))
  then have "feed ps (quote_field s @ tail) =
      feed (ps\<lparr>cur_field := s, pstate := QUOTE_IN_QUOTED_FIELD\<rparr>) tail"
    using True open_q assms(2) by (simp add: quote_field_def)
  then show ?thesis by simp
next
  case False
  show ?thesis
  proof (cases "s = []")
    case True
    then have "pstate ps = START_FIELD" using assms(4) by simp
    moreover have "ps\<lparr>cur_field := [], pstate := START_FIELD\<rparr> = ps"
      using assms(2) calculation by simp
    ultimately show ?thesis using True False by (simp add: quote_field_def)
  next
    case ne: False
    have "feed ps (s @ tail) = feed (ps\<lparr>cur_field := cur_field ps @ s, pstate := IN_FIELD\<rparr>) tail"
      by (rule feed_plain [OF False ne assms(3)]) (use assms(1) in auto)
    then show ?thesis using False assms(2) by (simp add: quote_field_def)
  qed
qed

lemma feed_comma:
  assumes "pstate ps \<in> {START_RECORD, START_FIELD, IN_FIELD, QUOTE_IN_QUOTED_FIELD}"
    "tail \<noteq> []"
  shows "feed ps (COMMA # tail) = feed (parse_save_field START_FIELD ps) tail"
  using assms
  by (auto simp: feed.simps(2) parse_process_char_def start_field_def line_end_def)

lemma feed_crlf:
  assumes "pstate ps \<in> {START_FIELD, IN_FIELD, QUOTE_IN_QUOTED_FIELD}"
  shows "feed ps (CR # LF # tail) =
         feed ((parse_save_field START_RECORD ps)
           \<lparr>records := records ps @ [cur_fields ps @ [cur_field ps]], cur_fields := []\<rparr>) tail"
  using assms
  by (auto simp: feed.simps(2) parse_process_char_def start_field_def line_end_def
      parse_save_field_def next_record_def)


lemma feed_field_comma:
  assumes "pstate ps \<in> {START_RECORD, START_FIELD}" "cur_field ps = []" "tail \<noteq> []"
  shows "feed ps (quote_field s @ COMMA # tail) =
         feed (ps\<lparr>cur_fields := cur_fields ps @ [s], cur_field := [], pstate := START_FIELD\<rparr>) tail"
proof (cases "s = []")
  case True
  have "feed ps (COMMA # tail) = feed (parse_save_field START_FIELD ps) tail"
    by (rule feed_comma) (use assms in auto)
  then show ?thesis using True assms(2) by (simp add: quote_field_def parse_save_field_def)
next
  case False
  obtain st where st: "st \<in> {START_FIELD, IN_FIELD, QUOTE_IN_QUOTED_FIELD}"
    "feed ps (quote_field s @ COMMA # tail) = feed (ps\<lparr>cur_field := s, pstate := st\<rparr>) (COMMA # tail)"
    using feed_field [OF assms(1,2), of "COMMA # tail" s] False by auto
  have "feed (ps\<lparr>cur_field := s, pstate := st\<rparr>) (COMMA # tail) =
      feed (parse_save_field START_FIELD (ps\<lparr>cur_field := s, pstate := st\<rparr>)) tail"
    by (rule feed_comma) (use st(1) assms(3) in auto)
  then show ?thesis unfolding st(2) by (simp add: parse_save_field_def)
qed

lemma feed_field_crlf:
  assumes "pstate ps \<in> {START_RECORD, START_FIELD}" "cur_field ps = []"
    "s = [] \<longrightarrow> pstate ps = START_FIELD"
  shows "feed ps (quote_field s @ CR # LF # tail) =
         feed (ps\<lparr>records := records ps @ [cur_fields ps @ [s]], cur_fields := [],
                 cur_field := [], pstate := START_RECORD\<rparr>) tail"
proof -
  obtain st where st: "st \<in> {START_FIELD, IN_FIELD, QUOTE_IN_QUOTED_FIELD}"
    "feed ps (quote_field s @ CR # LF # tail) =
       feed (ps\<lparr>cur_field := s, pstate := st\<rparr>) (CR # LF # tail)"
    using feed_field [OF assms(1,2) _ assms(3), of "CR # LF # tail"] by auto
  have "feed (ps\<lparr>cur_field := s, pstate := st\<rparr>) (CR # LF # tail) =
      feed ((parse_save_field START_RECORD (ps\<lparr>cur_field := s, pstate := st\<rparr>))
        \<lparr>records := records (ps\<lparr>cur_field := s, pstate := st\<rparr>) @
           [cur_fields (ps\<lparr>cur_field := s, pstate := st\<rparr>) @
            [cur_field (ps\<lparr>cur_field := s, pstate := st\<rparr>)]],
         cur_fields := []\<rparr>) tail"
    by (rule feed_crlf) (use st(1) in auto)
  moreover have "(parse_save_field START_RECORD (ps\<lparr>cur_field := s, pstate := st\<rparr>))
        \<lparr>records := records (ps\<lparr>cur_field := s, pstate := st\<rparr>) @
           [cur_fields (ps\<lparr>cur_field := s, pstate := st\<rparr>) @
            [cur_field (ps\<lparr>cur_field := s, pstate := st\<rparr>)]],
         cur_fields := []\<rparr> =
      ps\<lparr>records := records ps @ [cur_fields ps @ [s]], cur_fields := [],
                 cur_field := [], pstate := START_RECORD\<rparr>"
    by (cases ps) (simp add: parse_save_field_def)
  ultimately show ?thesis unfolding st(2) by simp
qed

lemma feed_join_fields:
  assumes "pstate ps = START_FIELD" "cur_field ps = []" "fs \<noteq> []"
  shows "feed ps (join_fields fs @ CR # LF # tail) =
         feed (ps\<lparr>records := records ps @ [cur_fields ps @ fs], cur_fields := [],
                 cur_field := [], pstate := START_RECORD\<rparr>) tail"
  using assms
proof (induction fs arbitrary: ps rule: join_fields.induct)
  case 1
  then show ?case by simp
next
  case (2 f)
  show ?case using feed_field_crlf [of ps f tail] "2.prems" by simp
next
  case (3 f g fs)
  let ?ps1 = "ps\<lparr>cur_fields := cur_fields ps @ [f], cur_field := [], pstate := START_FIELD\<rparr>"
  have "feed ps (join_fields (f # g # fs) @ CR # LF # tail) =
      feed ?ps1 (join_fields (g # fs) @ CR # LF # tail)"
    using feed_field_comma [of ps "join_fields (g # fs) @ CR # LF # tail" f] "3.prems" by simp
  also have "\<dots> = feed (?ps1\<lparr>records := records ?ps1 @ [cur_fields ?ps1 @ (g # fs)],
      cur_fields := [], cur_field := [], pstate := START_RECORD\<rparr>) tail"
    by (rule "3.IH") simp_all
  finally show ?case by simp
qed

lemma feed_writerow:
  assumes "pstate ps = START_RECORD" "cur_field ps = []" "cur_fields ps = []"
  shows "feed ps (writerow fs @ tail) = feed (ps\<lparr>records := records ps @ [fs]\<rparr>) tail"
proof -
  obtain a b c d where ps: "ps = \<lparr>pstate = a, cur_field = b, cur_fields = c, records = d\<rparr>"
    by (cases ps)
  show ?thesis
  proof (cases fs)
    case Nil
    show ?thesis
      using assms Nil
      by (simp add: ps writerow_def feed.simps(2) parse_process_char_def line_end_def
          next_record_def)
  next
    case (Cons f gs)
    show ?thesis
    proof (cases gs)
      case Nil
      show ?thesis
      proof (cases "f = []")
        case True
        let ?q = "ps\<lparr>pstate := QUOTE_IN_QUOTED_FIELD\<rparr>"
        have "feed ps (DQ # DQ # CR # LF # tail) = feed ?q (CR # LF # tail)"
          using assms(1)
          by (simp add: feed.simps(2) parse_process_char_def start_field_def line_end_def)
        also have "\<dots> = feed ((parse_save_field START_RECORD ?q)
            \<lparr>records := records ?q @ [cur_fields ?q @ [cur_field ?q]], cur_fields := []\<rparr>) tail"
          by (rule feed_crlf) simp
        finally show ?thesis
          using True Nil Cons assms by (simp add: ps writerow_def parse_save_field_def)
      next
        case False
        then show ?thesis
          using feed_field_crlf [of ps f tail] assms Nil Cons by (simp add: ps writerow_def)
      qed
    next
      case (Cons g hs)
      let ?ps1 = "ps\<lparr>cur_fields := cur_fields ps @ [f], cur_field := [], pstate := START_FIELD\<rparr>"
      have w: "writerow fs @ tail = quote_field f @ COMMA # join_fields (g # hs) @ CR # LF # tail"
        using Cons \<open>fs = f # gs\<close> by (simp add: writerow_def)
      have "feed ps (writerow fs @ tail) = feed ?ps1 (join_fields (g # hs) @ CR # LF # tail)"
        unfolding w by (rule feed_field_comma) (use assms in auto)
      also have "\<dots> = feed (?ps1\<lparr>records := records ?ps1 @ [cur_fields ?ps1 @ (g # hs)],
          cur_fields := [], cur_field := [], pstate := START_RECORD\<rparr>) tail"
        by (rule feed_join_fields) simp_all
      finally show ?thesis using assms Cons \<open>fs = f # gs\<close> by (simp add: ps)
    qed
  qed
qed

lemma feed_rows:
  assumes "pstate ps = START_RECORD" "cur_field ps = []" "cur_fields ps = []"
  shows "feed ps (concat (map writerow rows)) = Some (ps\<lparr>records := records ps @ rows\<rparr>)"
  using assms
proof (induction rows arbitrary: ps)
  case Nil
  then show ?case by simp
next
  case (Cons r rows)
  have "feed ps (concat (map writerow (r # rows))) =
      feed (ps\<lparr>records := records ps @ [r]\<rparr>) (concat (map writerow rows))"
    using feed_writerow [OF Cons.prems, of r "concat (map writerow rows)"] by simp
  also have "\<dots> = Some (ps\<lparr>records := records ps @ [r]\<rparr>
      \<lparr>records := records (ps\<lparr>records := records ps @ [r]\<rparr>) @ rows\<rparr>)"
    by (rule Cons.IH) (simp_all add: Cons.prems)
  finally show ?case by simp
qed

lemma csv_reader_writerows: "csv_reader (concat (map writerow rows)) = Some rows"
  using feed_rows [of "\<lparr>pstate = START_RECORD, cur_field = [], cur_fields = [], records = []\<rparr>" rows]
  by (simp add: csv_reader_def)

lemma rowdict_eq:
  "rowdict c =
     Some [(''course_id'', PStr (course_id c)), (''course_title'', PStr (course_title c)),
           (''url'', PStr (url c)), (''is_paid'', opt PBool (is_paid c)),
           (''price'', opt PStr (price c)), (''num_subscribers'', opt PInt (num_subscribers c)),
           (''num_reviews'', opt PInt (num_reviews c)), (''num_lectures'', opt PInt (num_lectures c)),
           (''level'', opt PStr (level c)), (''content_duration'', opt PStr (content_duration c)),
           (''published_timestamp'', opt PStr (published_timestamp c)),
           (''subject'', opt PStr (subject c)), (''provider'', opt PStr (provider c)),
           (''language'', opt PStr (language c))]"
  by (simp add: rowdict_def FIELDS_def getattr_def)

lemma csv_str_opt [simp]:
  "csv_str (opt PStr x) = rendered (\<lambda>s. s) x"
  "csv_str (opt PBool b) = rendered str_bool b"
  "csv_str (opt PInt i) = rendered str_int i"
  by (simp_all add: opt_def rendered_def split: option.splits)

lemma cells_eq: "cells c = Some (row_cells c)"
  by (simp add: cells_def rowdict_eq dict_to_list_def FIELDS_def row_cells_def)

lemma csv_rows_eq: "csv_rows cs = Some (concat (map (\<lambda>c. writerow (row_cells c)) cs))"
  by (induction cs) (simp_all add: cells_eq)

lemma header_line:
  "writerow FIELDS =
     ''course_id,course_title,url,is_paid,price,num_subscribers,num_reviews,num_lectures,level,content_duration,published_timestamp,subject,provider,language'' @ [CR, LF]"
  by (simp add: writerow_def FIELDS_def quote_field_def special_def)


lemma csv_text_eq:
  "csv_text rows = Some (writerow FIELDS @ concat (map (\<lambda>c. writerow (row_cells c)) rows))"
  by (simp add: csv_text_def csv_rows_eq)

lemma write_csv_files:
  assumes "write_csv rows p w = (Inr (), w')"
  shows "files w' p = csv_text rows"
proof -
  obtain w1 where m: "makedirs (dirname p) w = Inr w1"
    using assms by (cases "makedirs (dirname p) w") (simp_all add: write_csv_def)
  obtain t where t: "csv_text rows = Some t" using csv_text_eq by blast
  obtain w2 where f: "write_file p t w1 = Inr w2"
    using assms m t by (cases "write_file p t w1") (simp_all add: write_csv_def)
  have "w' = w2" using assms m t f by (simp add: write_csv_def)
  moreover have "files w2 p = Some t"
    using f by (auto simp: write_file_def split: if_splits)
  ultimately show ?thesis using t by simp
qed

text \<open>
  Claim C8. For every list of records, the text \<^verbatim>\<open>write_csv\<close> writes is one header
  row, whose columns are the fourteen field names in their order, followed by one row per
  record in the order of the list, each row made of the cells of the record with an absent
  field as the empty string; reading that text back with the reader of the \<^verbatim>\<open>csv\<close>
  module gives the header and the same rows with the same cells; and when
  \<^verbatim>\<open>write_csv\<close> returns, the file at the path holds that text.
\<close>

theorem write_csv_round_trip:
  "csv_text rows = Some (writerow FIELDS @ concat (map (\<lambda>c. writerow (row_cells c)) rows)) \<and>
   writerow FIELDS =
     ''course_id,course_title,url,is_paid,price,num_subscribers,num_reviews,num_lectures,level,content_duration,published_timestamp,subject,provider,language'' @ [CR, LF] \<and>
   csv_reader (writerow FIELDS @ concat (map (\<lambda>c. writerow (row_cells c)) rows)) =
     Some (FIELDS # map row_cells rows) \<and>
   (write_csv rows p w = (Inr (), w') \<longrightarrow> files w' p = csv_text rows)"
proof -
  have "writerow FIELDS @ concat (map (\<lambda>c. writerow (row_cells c)) rows) =
      concat (map writerow (FIELDS # map row_cells rows))"
    by (simp add: comp_def)
  then have r: "csv_reader (writerow FIELDS @ concat (map (\<lambda>c. writerow (row_cells c)) rows)) =
      Some (FIELDS # map row_cells rows)"
    by (simp only: csv_reader_writerows)
  show ?thesis using write_csv_files by (intro conjI impI csv_text_eq header_line r)
qed

lemma three_courses_written:
  "fst (write_csv three_courses ''data/courses.csv'' dead_world) = Inr ()"
  by code_simp

lemma three_courses_cells:
  "map row_cells three_courses =
     [[''c1'', ''Data, '' @ [DQ] @ ''Cloud'' @ [DQ, LF] @ ''and AI'', ''https://a.example/course/1'',
       ''True'', ''1,200 ETB'', ''1500'', ''0'', ''12'', ''Beginner'', ''3 hours'',
       ''2024-01-05T00:00:00Z'', ''ICT'', ''A'', ''Amharic''],
      [''https://a.example/course/1'', ''One'', ''https://a.example/course/1'',
       [], [], [], [], [], [], [], [], [], ''A'', []],
      [''https://a.example/course/2'', ''Two'', ''https://a.example/course/2'',
       ''False'', [], [], [], [], [], [], [], [], ''A'', []]]"
  by code_simp

theorem write_csv_round_trip_witness:
  "fst (write_csv three_courses ''data/courses.csv'' dead_world) = Inr () \<and>
   files (snd (write_csv three_courses ''data/courses.csv'' dead_world)) ''data/courses.csv'' =
     csv_text three_courses \<and>
   (\<exists>t. csv_text three_courses = Some t \<and>
      csv_reader t = Some (FIELDS # map row_cells three_courses)) \<and>
   map row_cells three_courses =
     [[''c1'', ''Data, '' @ [DQ] @ ''Cloud'' @ [DQ, LF] @ ''and AI'', ''https://a.example/course/1'',
       ''True'', ''1,200 ETB'', ''1500'', ''0'', ''12'', ''Beginner'', ''3 hours'',
       ''2024-01-05T00:00:00Z'', ''ICT'', ''A'', ''Amharic''],
      [''https://a.example/course/1'', ''One'', ''https://a.example/course/1'',
       [], [], [], [], [], [], [], [], [], ''A'', []],
      [''https://a.example/course/2'', ''Two'', ''https://a.example/course/2'',
       ''False'', [], [], [], [], [], [], [], [], ''A'', []]]"
proof -
  let ?w = "snd (write_csv three_courses ''data/courses.csv'' dead_world)"
  have 1: "write_csv three_courses ''data/courses.csv'' dead_world = (Inr (), ?w)"
    using three_courses_written by (metis prod.collapse)
  note t = write_csv_round_trip [of three_courses "''data/courses.csv''" dead_world ?w]
  have 2: "files ?w ''data/courses.csv'' = csv_text three_courses" using t 1 by blast
  have 3: "\<exists>t. csv_text three_courses = Some t \<and>
      csv_reader t = Some (FIELDS # map row_cells three_courses)" using t by blast
  show ?thesis by (intro conjI three_courses_written 2 3 three_courses_cells)
qed


end
